theory Spec2Isabelle
  imports Main
begin

section \<open>JavaScript values and thrown values\<close>

text \<open>
  The relay reads the fields of an inbound frame straight out of the value that
  \<^verbatim>\<open>JSON.parse\<close> returned, without validating them, so the fields are modelled as
  JavaScript values and not as strings. Arrays and objects carry the identity of their
  allocation (every array or object that \<^verbatim>\<open>JSON.parse\<close> builds is a new one), so that
  HOL equality on \<open>jsval\<close> is the strict equality \<^verbatim>\<open>===\<close> of the source. \<open>JNum\<close> stands
  for a number; \<^verbatim>\<open>NaN\<close> cannot come out of \<^verbatim>\<open>JSON.parse\<close> and is not represented.
  \<open>JUndefined\<close> is what reading a missing property gives.
\<close>

datatype jsval =
    JUndefined
  | JNull
  | JBool bool
  | JNum int
  | JStr string
  | JArr nat "jsval list"
  | JObj nat "(string \<times> jsval) list"

text \<open>A thrown value is an \<^verbatim>\<open>Error\<close> object (of any subclass) with its message, or
  something that is not an \<^verbatim>\<open>Error\<close>.\<close>

datatype thrown = ErrorObj string | NonError

text \<open>\<^verbatim>\<open>error instanceof Error ? error.message : 'Unknown error'\<close>\<close>

definition error_message :: "thrown \<Rightarrow> string" where
  "error_message err = (case err of ErrorObj m \<Rightarrow> m | NonError \<Rightarrow> ''Unknown error'')"

text \<open>Truthiness, as \<^verbatim>\<open>||\<close> and \<^verbatim>\<open>if\<close> test it.\<close>

fun truthy :: "jsval \<Rightarrow> bool" where
  "truthy JUndefined = False"
| "truthy JNull = False"
| "truthy (JBool b) = b"
| "truthy (JNum n) = (n \<noteq> 0)"
| "truthy (JStr s) = (s \<noteq> [])"
| "truthy (JArr a xs) = True"
| "truthy (JObj a fs) = True"

text \<open>\<^verbatim>\<open>x || null\<close>\<close>

definition or_null :: "jsval \<Rightarrow> jsval" where
  "or_null x = (if truthy x then x else JNull)"

text \<open>
  Reading a property whose name no prototype defines (\<^verbatim>\<open>type\<close>, \<^verbatim>\<open>conversationId\<close>,
  \<^verbatim>\<open>content\<close>, \<^verbatim>\<open>model\<close>, \<^verbatim>\<open>mode\<close>): \<^verbatim>\<open>null\<close> and \<^verbatim>\<open>undefined\<close> throw a
  \<^verbatim>\<open>TypeError\<close> (the message is V8's), an object gives the field or \<^verbatim>\<open>undefined\<close>, every
  other value gives \<^verbatim>\<open>undefined\<close>.
\<close>

fun get_prop :: "jsval \<Rightarrow> string \<Rightarrow> thrown + jsval" where
  "get_prop JUndefined p =
     Inl (ErrorObj (''Cannot read properties of undefined (reading '' @ [CHR 0x27] @ p @ [CHR 0x27] @ '')''))"
| "get_prop JNull p =
     Inl (ErrorObj (''Cannot read properties of null (reading '' @ [CHR 0x27] @ p @ [CHR 0x27] @ '')''))"
| "get_prop (JObj a fs) p = Inr (case map_of fs p of None \<Rightarrow> JUndefined | Some v \<Rightarrow> v)"
| "get_prop v p = Inr JUndefined"

section \<open>The JavaScript \<^verbatim>\<open>Map\<close>\<close>

text \<open>
  A \<^verbatim>\<open>Map\<close> keeps its entries in insertion order, and \<^verbatim>\<open>Array.from(m.values())\<close> reads
  them in that order: an association list. \<^verbatim>\<open>set\<close> on a present key replaces the value
  where it stands, on a new key it appends.
\<close>

fun Map_set :: "'k \<Rightarrow> 'v \<Rightarrow> ('k \<times> 'v) list \<Rightarrow> ('k \<times> 'v) list" where
  "Map_set k v [] = [(k, v)]"
| "Map_set k v (p # ps) = (if fst p = k then (k, v) # ps else p # Map_set k v ps)"

definition Map_get :: "('k \<times> 'v) list \<Rightarrow> 'k \<Rightarrow> 'v option" where
  "Map_get m k = map_of m k"

definition Map_has :: "'k \<Rightarrow> ('k \<times> 'v) list \<Rightarrow> bool" where
  "Map_has k m = (k \<in> set (map fst m))"

definition Map_delete :: "'k \<Rightarrow> ('k \<times> 'v) list \<Rightarrow> ('k \<times> 'v) list" where
  "Map_delete k m = filter (\<lambda>p. fst p \<noteq> k) m"

definition Map_values :: "('k \<times> 'v) list \<Rightarrow> 'v list" where
  "Map_values m = map snd m"

section \<open>The store: \<^verbatim>\<open>MemStorage\<close>\<close>

text \<open>Times are \<^verbatim>\<open>Date.getTime()\<close> values, in milliseconds.\<close>

record Conversation =
  conv_id :: string
  conv_title :: string
  conv_model :: string
  conv_mode :: string
  conv_createdAt :: nat
  conv_updatedAt :: nat

text \<open>
  \<^verbatim>\<open>MemStorage\<close> checks nothing at run time, so a message holds whatever values the caller
  passed for \<^verbatim>\<open>conversationId\<close>, \<^verbatim>\<open>content\<close>, \<^verbatim>\<open>model\<close> and \<^verbatim>\<open>tokenUsage\<close>.
\<close>

record Message =
  msg_id :: string
  msg_conversationId :: jsval
  msg_role :: string
  msg_content :: jsval
  msg_model :: jsval
  msg_tokenUsage :: jsval
  msg_createdAt :: nat

record InsertMessage =
  ins_conversationId :: jsval
  ins_role :: string
  ins_content :: jsval
  ins_model :: jsval
  ins_tokenUsage :: jsval

record UploadedFile =
  file_id :: string
  file_name :: string
  file_originalName :: string
  file_mimeType :: string
  file_size :: nat
  file_path :: string
  file_conversationId :: "string option"
  file_createdAt :: nat

text \<open>The three maps of the chat application; the maps of the autonomous subsystem are
  not touched by any operation below.\<close>

record MemStorage =
  conversations :: "(string \<times> Conversation) list"
  messages :: "(string \<times> Message) list"
  uploadedFiles :: "(string \<times> UploadedFile) list"

definition new_MemStorage :: MemStorage where
  "new_MemStorage = \<lparr>conversations = [], messages = [], uploadedFiles = []\<rparr>"

text \<open>
  \<^verbatim>\<open>updateConversation(id, updates)\<close>. The keys of the map are strings, so a lookup with
  any other value finds nothing. \<open>updates\<close> is the effect of spreading the partial object
  over the copy; \<open>now\<close> is what \<^verbatim>\<open>new Date()\<close> returns.
\<close>

definition updateConversation ::
  "MemStorage \<Rightarrow> jsval \<Rightarrow> (Conversation \<Rightarrow> Conversation) \<Rightarrow> nat \<Rightarrow> Conversation option \<times> MemStorage" where
  "updateConversation st cid updates now =
     (case cid of
        JStr k \<Rightarrow>
          (case Map_get (conversations st) k of
             None \<Rightarrow> (None, st)
           | Some conversation \<Rightarrow>
               (let updated = (updates conversation)\<lparr>conv_updatedAt := now\<rparr>
                in (Some updated, st\<lparr>conversations := Map_set k updated (conversations st)\<rparr>)))
      | _ \<Rightarrow> (None, st))"

text \<open>\<^verbatim>\<open>getMessagesByConversation\<close>: filter on \<^verbatim>\<open>===\<close>, then the stable sort of
  \<^verbatim>\<open>Array.prototype.sort\<close> on the creation time.\<close>

definition getMessagesByConversation :: "MemStorage \<Rightarrow> jsval \<Rightarrow> Message list" where
  "getMessagesByConversation st conversationId =
     sort_key msg_createdAt
       (filter (\<lambda>message. msg_conversationId message = conversationId) (Map_values (messages st)))"

text \<open>
  \<^verbatim>\<open>createMessage\<close>. \<open>uuid\<close> is what \<^verbatim>\<open>randomUUID()\<close> returns, \<open>created\<close> what the
  \<^verbatim>\<open>new Date()\<close> of the message returns and \<open>touched\<close> what the one inside
  \<^verbatim>\<open>updateConversation\<close> returns. The result of \<^verbatim>\<open>updateConversation\<close> is dropped.
\<close>

definition createMessage ::
  "MemStorage \<Rightarrow> string \<Rightarrow> nat \<Rightarrow> nat \<Rightarrow> InsertMessage \<Rightarrow> Message \<times> MemStorage" where
  "createMessage st uuid created touched insertMessage =
     (let message = \<lparr>msg_id = uuid,
                     msg_conversationId = ins_conversationId insertMessage,
                     msg_role = ins_role insertMessage,
                     msg_content = ins_content insertMessage,
                     msg_model = or_null (ins_model insertMessage),
                     msg_tokenUsage = or_null (ins_tokenUsage insertMessage),
                     msg_createdAt = created\<rparr>;
          st1 = st\<lparr>messages := Map_set uuid message (messages st)\<rparr>;
          st2 = snd (updateConversation st1 (ins_conversationId insertMessage) (\<lambda>c. c) touched)
      in (message, st2))"

text \<open>\<^verbatim>\<open>getUploadedFiles(conversationId?)\<close>: an absent or empty id is falsy and gives every
  file, newest first.\<close>

definition getUploadedFiles :: "MemStorage \<Rightarrow> string option \<Rightarrow> UploadedFile list" where
  "getUploadedFiles st conversationId =
     (let files = Map_values (uploadedFiles st)
      in case conversationId of
           Some c \<Rightarrow>
             (if c \<noteq> [] then filter (\<lambda>file. file_conversationId file = Some c) files
              else sort_key (\<lambda>file. - int (file_createdAt file)) files)
         | None \<Rightarrow> sort_key (\<lambda>file. - int (file_createdAt file)) files)"

text \<open>\<^verbatim>\<open>deleteConversation\<close>: the two \<^verbatim>\<open>for\<close> loops delete by the id field of each value
  found, then the conversation itself goes; the result is that of \<^verbatim>\<open>Map.delete\<close>.\<close>

definition deleteConversation :: "MemStorage \<Rightarrow> string \<Rightarrow> bool \<times> MemStorage" where
  "deleteConversation st cid =
     (let msgs = getMessagesByConversation st (JStr cid);
          st1 = foldl (\<lambda>s message. s\<lparr>messages := Map_delete (msg_id message) (messages s)\<rparr>) st msgs;
          files = getUploadedFiles st1 (Some cid);
          st2 = foldl (\<lambda>s file. s\<lparr>uploadedFiles := Map_delete (file_id file) (uploadedFiles s)\<rparr>) st1 files
      in (Map_has cid (conversations st2),
          st2\<lparr>conversations := Map_delete cid (conversations st2)\<rparr>))"

text \<open>
  The invariant of the class: every value sits under its own id, and a \<^verbatim>\<open>Map\<close> has no
  key twice. The constructor establishes it and the methods keep it.
\<close>

definition store_inv :: "MemStorage \<Rightarrow> bool" where
  "store_inv st =
     (list_all (\<lambda>p. conv_id (snd p) = fst p) (conversations st) \<and> distinct (map fst (conversations st)) \<and>
      list_all (\<lambda>p. msg_id (snd p) = fst p) (messages st) \<and> distinct (map fst (messages st)) \<and>
      list_all (\<lambda>p. file_id (snd p) = fst p) (uploadedFiles st) \<and> distinct (map fst (uploadedFiles st)))"

section \<open>The completion backends\<close>

text \<open>
  What the provider does is not code of the repository: it is given as the sequence of
  stream chunks the provider delivers and the way the stream ends. A failing
  \<^verbatim>\<open>create\<close> call is a stream that throws before its first chunk; a stream whose next
  chunk never arrives hangs.
\<close>

datatype stream_end = Done | Throws thrown | Hangs

datatype 'c provider_stream = Stream (chunks: "'c list") (ending: stream_end)

text \<open>An OpenAI chunk: \<open>delta_content\<close> is \<^verbatim>\<open>chunk.choices[0]?.delta?.content\<close> (\<open>None\<close> when
  it is \<^verbatim>\<open>null\<close> or \<^verbatim>\<open>undefined\<close>), \<open>chunk_usage\<close> is \<^verbatim>\<open>chunk.usage?.total_tokens\<close>.\<close>

record openai_chunk =
  delta_content :: "string option"
  chunk_usage :: "nat option"

datatype anthropic_delta = text_delta string | other_delta

datatype anthropic_event =
    content_block_delta anthropic_delta
  | message_usage nat
  | other_event

text \<open>The object a completion function resolves with; \<open>res_tokenUsage\<close> is \<open>JUndefined\<close>
  when the object has no such property.\<close>

record completion_result =
  res_content :: string
  res_tokenUsage :: jsval

text \<open>An awaited call resolves, rejects, or never settles.\<close>

datatype 'a settled = Resolved 'a | Rejected thrown | Pending

text \<open>The \<^verbatim>\<open>for await\<close> loop of the OpenAI function; \<open>onChunk\<close> acts on the caller's
  state.\<close>

fun openai_for_await ::
  "(string \<Rightarrow> 's \<Rightarrow> 's) \<Rightarrow> openai_chunk list \<Rightarrow> string \<Rightarrow> 's \<Rightarrow> string \<times> 's" where
  "openai_for_await onChunk [] fullContent s = (fullContent, s)"
| "openai_for_await onChunk (chunk # rest) fullContent s =
     (let content = (case delta_content chunk of None \<Rightarrow> [] | Some t \<Rightarrow> t)
      in if content \<noteq> []
         then openai_for_await onChunk rest (fullContent @ content) (onChunk content s)
         else openai_for_await onChunk rest fullContent s)"

definition openai_generateStreamingCompletion ::
  "openai_chunk provider_stream \<Rightarrow> (string \<Rightarrow> 's \<Rightarrow> 's) \<Rightarrow> 's \<Rightarrow> completion_result settled \<times> 's" where
  "openai_generateStreamingCompletion reply onChunk s =
     (let (fullContent, s') = openai_for_await onChunk (chunks reply) [] s
      in case ending reply of
           Done \<Rightarrow> (Resolved \<lparr>res_content = fullContent, res_tokenUsage = JUndefined\<rparr>, s')
         | Throws err \<Rightarrow> (Rejected (ErrorObj (''OpenAI API error: '' @ error_message err)), s')
         | Hangs \<Rightarrow> (Pending, s'))"

text \<open>The loop of the Anthropic function: every text delta is passed on, an empty one
  too. How the request is built from the history (the \<^verbatim>\<open>system\<close> entries are taken out)
  decides only what the provider is sent.\<close>

fun anthropic_for_await ::
  "(string \<Rightarrow> 's \<Rightarrow> 's) \<Rightarrow> anthropic_event list \<Rightarrow> string \<Rightarrow> 's \<Rightarrow> string \<times> 's" where
  "anthropic_for_await onChunk [] fullContent s = (fullContent, s)"
| "anthropic_for_await onChunk (content_block_delta (text_delta content) # rest) fullContent s =
     anthropic_for_await onChunk rest (fullContent @ content) (onChunk content s)"
| "anthropic_for_await onChunk (chunk # rest) fullContent s =
     anthropic_for_await onChunk rest fullContent s"

definition anthropic_generateStreamingCompletion ::
  "anthropic_event provider_stream \<Rightarrow> (string \<Rightarrow> 's \<Rightarrow> 's) \<Rightarrow> 's \<Rightarrow> completion_result settled \<times> 's" where
  "anthropic_generateStreamingCompletion reply onChunk s =
     (let (fullContent, s') = anthropic_for_await onChunk (chunks reply) [] s
      in case ending reply of
           Done \<Rightarrow> (Resolved \<lparr>res_content = fullContent, res_tokenUsage = JUndefined\<rparr>, s')
         | Throws err \<Rightarrow> (Rejected (ErrorObj (''Anthropic API error: '' @ error_message err)), s')
         | Hangs \<Rightarrow> (Pending, s'))"

section \<open>The relay: the \<^verbatim>\<open>message\<close> handler of a connection\<close>

datatype ready_state = CONNECTING | OPEN | CLOSING | CLOSED

datatype frame =
    streaming_start
  | streaming_chunk string
  | streaming_complete string jsval
  | error_frame string

datatype service = OpenAI | Anthropic

text \<open>What one run of the handler does to the outside, in the order it does it: a
  message stored, a backend called with a history and a model, a frame sent.\<close>

datatype event =
    Persisted Message
  | Invoked service "(string \<times> jsval) list" jsval
  | Sent frame

text \<open>
  What the surroundings supply during one run: the value of \<^verbatim>\<open>ws.readyState\<close> at its
  \<open>k\<close>-th reading, the results of \<^verbatim>\<open>randomUUID()\<close> and \<^verbatim>\<open>new Date()\<close> for the user message
  and for the assistant message, and the reply of each provider.
\<close>

record env =
  readyState :: "nat \<Rightarrow> ready_state"
  user_uuid :: string
  user_created :: nat
  user_touched :: nat
  asst_uuid :: string
  asst_created :: nat
  asst_touched :: nat
  openai_reply :: "openai_chunk provider_stream"
  anthropic_reply :: "anthropic_event provider_stream"

text \<open>The state a run threads: the store, the local \<^verbatim>\<open>aiResponse\<close>, the events so far
  and how often \<^verbatim>\<open>ws.readyState\<close> has been read.\<close>

record turn_state =
  storage :: MemStorage
  aiResponse :: string
  log :: "event list"
  checks :: nat

definition begin_turn :: "MemStorage \<Rightarrow> turn_state" where
  "begin_turn st = \<lparr>storage = st, aiResponse = [], log = [], checks = 0\<rparr>"

text \<open>\<^verbatim>\<open>if (ws.readyState === WebSocket.OPEN) { ws.send(JSON.stringify(f)) }\<close>\<close>

definition send_if_open :: "env \<Rightarrow> frame \<Rightarrow> turn_state \<Rightarrow> turn_state" where
  "send_if_open e f s =
     (if readyState e (checks s) = OPEN
      then s\<lparr>log := log s @ [Sent f], checks := Suc (checks s)\<rparr>
      else s\<lparr>checks := Suc (checks s)\<rparr>)"

text \<open>The callback handed to the backend.\<close>

definition on_chunk :: "env \<Rightarrow> string \<Rightarrow> turn_state \<Rightarrow> turn_state" where
  "on_chunk e chunk s = send_if_open e (streaming_chunk chunk) (s\<lparr>aiResponse := aiResponse s @ chunk\<rparr>)"

text \<open>\<^verbatim>\<open>String.prototype.includes\<close>\<close>

fun str_includes :: "string \<Rightarrow> string \<Rightarrow> bool" where
  "str_includes [] sub = (sub = [])"
| "str_includes (c # cs) sub = (take (length sub) (c # cs) = sub \<or> str_includes cs sub)"

text \<open>
  \<^verbatim>\<open>model.includes('gpt')\<close>: a string is searched, an array is searched for an element
  \<^verbatim>\<open>'gpt'\<close>, \<^verbatim>\<open>null\<close> and \<^verbatim>\<open>undefined\<close> have no properties, and on anything else
  \<^verbatim>\<open>includes\<close> is not a function (a field of that name in a parsed object holds data).
\<close>

fun includes_gpt :: "jsval \<Rightarrow> thrown + bool" where
  "includes_gpt (JStr s) = Inr (str_includes s ''gpt'')"
| "includes_gpt (JArr a xs) = Inr (JStr ''gpt'' \<in> set xs)"
| "includes_gpt JUndefined = Inl (projl (get_prop JUndefined ''includes''))"
| "includes_gpt JNull = Inl (projl (get_prop JNull ''includes''))"
| "includes_gpt v = Inl (ErrorObj ''model.includes is not a function'')"

text \<open>A field taken by destructuring; the chat branch is entered only with an object.\<close>

definition field :: "jsval \<Rightarrow> string \<Rightarrow> jsval" where
  "field message p = (case get_prop message p of Inr v \<Rightarrow> v | Inl err \<Rightarrow> JUndefined)"

text \<open>The body of \<^verbatim>\<open>if (message.type === 'chat') { ... }\<close>.\<close>

definition handle_chat :: "env \<Rightarrow> jsval \<Rightarrow> turn_state \<Rightarrow> unit settled \<times> turn_state" where
  "handle_chat e message s0 =
     (let conversationId = field message ''conversationId'';
          content = field message ''content'';
          model = field message ''model'';
          (userMessage, st1) =
             createMessage (storage s0) (user_uuid e) (user_created e) (user_touched e)
               \<lparr>ins_conversationId = conversationId, ins_role = ''user'', ins_content = content,
                ins_model = JUndefined, ins_tokenUsage = JUndefined\<rparr>;
          s1 = s0\<lparr>storage := st1, log := log s0 @ [Persisted userMessage]\<rparr>;
          msgs = getMessagesByConversation st1 conversationId;
          messageHistory = map (\<lambda>m. (msg_role m, msg_content m)) msgs
      in case includes_gpt model of
           Inl err \<Rightarrow> (Rejected err, s1)
         | Inr isOpenAI \<Rightarrow>
             (let s2 = send_if_open e streaming_start (s1\<lparr>aiResponse := []\<rparr>);
                  s3 = s2\<lparr>log := log s2 @ [Invoked (if isOpenAI then OpenAI else Anthropic) messageHistory model]\<rparr>;
                  (r, s4) =
                    (if isOpenAI
                     then openai_generateStreamingCompletion (openai_reply e) (on_chunk e) s3
                     else anthropic_generateStreamingCompletion (anthropic_reply e) (on_chunk e) s3)
              in case r of
                   Rejected err \<Rightarrow> (Rejected err, s4)
                 | Pending \<Rightarrow> (Pending, s4)
                 | Resolved res \<Rightarrow>
                     (let (aiMessage, st5) =
                            createMessage (storage s4) (asst_uuid e) (asst_created e) (asst_touched e)
                              \<lparr>ins_conversationId = conversationId, ins_role = ''assistant'',
                               ins_content = JStr (res_content res), ins_model = model,
                               ins_tokenUsage = res_tokenUsage res\<rparr>;
                          s5 = s4\<lparr>storage := st5, log := log s4 @ [Persisted aiMessage]\<rparr>
                      in (Resolved (),
                          send_if_open e (streaming_complete (res_content res) (res_tokenUsage res)) s5))))"

text \<open>An inbound frame as \<^verbatim>\<open>JSON.parse(data.toString())\<close> sees it: a \<^verbatim>\<open>SyntaxError\<close> with
  its message, or the parsed value.\<close>

datatype inbound = Unparseable string | Parsed jsval

text \<open>The handler: the \<^verbatim>\<open>try\<close> block, then the \<^verbatim>\<open>catch\<close>.\<close>

definition on_message :: "env \<Rightarrow> inbound \<Rightarrow> turn_state \<Rightarrow> turn_state" where
  "on_message e data s =
     (let (r, s') =
            (case data of
               Unparseable m \<Rightarrow> (Rejected (ErrorObj m), s)
             | Parsed message \<Rightarrow>
                 (case get_prop message ''type'' of
                    Inl err \<Rightarrow> (Rejected err, s)
                  | Inr t \<Rightarrow>
                      if t = JStr ''chat'' then handle_chat e message s else (Resolved (), s)))
      in case r of
           Rejected err \<Rightarrow> send_if_open e (error_frame (error_message err)) s'
         | _ \<Rightarrow> s')"

section \<open>Vocabulary of the properties\<close>

text \<open>The frames of a log, the payloads of the chunk frames, the terminal frames.\<close>

fun frames_sent :: "event list \<Rightarrow> frame list" where
  "frames_sent [] = []"
| "frames_sent (Sent f # evs) = f # frames_sent evs"
| "frames_sent (ev # evs) = frames_sent evs"

fun chunk_payloads :: "frame list \<Rightarrow> string list" where
  "chunk_payloads [] = []"
| "chunk_payloads (streaming_chunk c # fs) = c # chunk_payloads fs"
| "chunk_payloads (f # fs) = chunk_payloads fs"

fun is_terminal :: "frame \<Rightarrow> bool" where
  "is_terminal (streaming_complete c u) = True"
| "is_terminal (error_frame m) = True"
| "is_terminal f = False"

text \<open>A frame is a chat request when its \<^verbatim>\<open>type\<close> is \<^verbatim>\<open>'chat'\<close>.\<close>

definition is_chat :: "jsval \<Rightarrow> bool" where
  "is_chat message = (get_prop message ''type'' = Inr (JStr ''chat''))"

text \<open>The message the relay stores for the user's turn.\<close>

definition user_message :: "env \<Rightarrow> jsval \<Rightarrow> Message" where
  "user_message e message =
     \<lparr>msg_id = user_uuid e, msg_conversationId = field message ''conversationId'',
      msg_role = ''user'', msg_content = field message ''content'',
      msg_model = JNull, msg_tokenUsage = JNull, msg_createdAt = user_created e\<rparr>"

text \<open>The text fragments a provider stream hands to \<open>onChunk\<close>, in order.\<close>

fun openai_fragments :: "openai_chunk list \<Rightarrow> string list" where
  "openai_fragments [] = []"
| "openai_fragments (c # cs) =
     (case delta_content c of
        None \<Rightarrow> openai_fragments cs
      | Some t \<Rightarrow> if t \<noteq> [] then t # openai_fragments cs else openai_fragments cs)"

fun anthropic_fragments :: "anthropic_event list \<Rightarrow> string list" where
  "anthropic_fragments [] = []"
| "anthropic_fragments (content_block_delta (text_delta t) # evs) = t # anthropic_fragments evs"
| "anthropic_fragments (ev # evs) = anthropic_fragments evs"

definition backend_fragments :: "env \<Rightarrow> bool \<Rightarrow> string list" where
  "backend_fragments e isOpenAI =
     (if isOpenAI then openai_fragments (chunks (openai_reply e))
      else anthropic_fragments (chunks (anthropic_reply e)))"

definition backend_ending :: "env \<Rightarrow> bool \<Rightarrow> stream_end" where
  "backend_ending e isOpenAI =
     (if isOpenAI then ending (openai_reply e) else ending (anthropic_reply e))"

definition backend_error :: "bool \<Rightarrow> thrown \<Rightarrow> string" where
  "backend_error isOpenAI err =
     (if isOpenAI then ''OpenAI API error: '' else ''Anthropic API error: '') @ error_message err"

text \<open>Of a sequence of items offered one per reading of \<^verbatim>\<open>ws.readyState\<close>, from the
  \<open>k\<close>-th reading on, those that find the connection open.\<close>

fun delivered :: "(nat \<Rightarrow> ready_state) \<Rightarrow> nat \<Rightarrow> 'a list \<Rightarrow> 'a list" where
  "delivered rs k [] = []"
| "delivered rs k (x # xs) =
     (if rs k = OPEN then x # delivered rs (Suc k) xs else delivered rs (Suc k) xs)"

text \<open>
  The frames a chat turn offers to the connection, after the order the specification
  gives: \<^verbatim>\<open>streaming_start\<close>, one chunk frame for each fragment, and the terminal frame;
  a turn that fails before streaming begins offers the \<^verbatim>\<open>error\<close> frame alone, and a
  backend that never settles leaves the turn without a terminal frame.
\<close>

definition turn_frames :: "env \<Rightarrow> jsval \<Rightarrow> frame list" where
  "turn_frames e model =
     (case includes_gpt model of
        Inl err \<Rightarrow> [error_frame (error_message err)]
      | Inr b \<Rightarrow>
          streaming_start # map streaming_chunk (backend_fragments e b) @
          (case backend_ending e b of
             Done \<Rightarrow> [streaming_complete (concat (backend_fragments e b)) JUndefined]
           | Throws err \<Rightarrow> [error_frame (backend_error b err)]
           | Hangs \<Rightarrow> []))"

text \<open>A connection that has left the open state does not come back to it.\<close>

definition never_reopens :: "(nat \<Rightarrow> ready_state) \<Rightarrow> bool" where
  "never_reopens rs = (\<forall>i j. i \<le> j \<longrightarrow> rs j = OPEN \<longrightarrow> rs i = OPEN)"

text \<open>A connection that is open at every reading.\<close>

definition always_open :: "(nat \<Rightarrow> ready_state) \<Rightarrow> bool" where
  "always_open rs = (\<forall>k. rs k = OPEN)"

text \<open>The two messages a chat turn stores and the store after each, written with the
  operations of the store.\<close>

definition user_insert :: "jsval \<Rightarrow> InsertMessage" where
  "user_insert message =
     \<lparr>ins_conversationId = field message ''conversationId'', ins_role = ''user'',
      ins_content = field message ''content'', ins_model = JUndefined, ins_tokenUsage = JUndefined\<rparr>"

definition after_user :: "env \<Rightarrow> jsval \<Rightarrow> MemStorage \<Rightarrow> MemStorage" where
  "after_user e message st =
     snd (createMessage st (user_uuid e) (user_created e) (user_touched e) (user_insert message))"

definition assistant_message :: "env \<Rightarrow> jsval \<Rightarrow> string \<Rightarrow> Message" where
  "assistant_message e message text =
     \<lparr>msg_id = asst_uuid e, msg_conversationId = field message ''conversationId'',
      msg_role = ''assistant'', msg_content = JStr text,
      msg_model = or_null (field message ''model''), msg_tokenUsage = JNull,
      msg_createdAt = asst_created e\<rparr>"

definition assistant_insert :: "jsval \<Rightarrow> string \<Rightarrow> InsertMessage" where
  "assistant_insert message text =
     \<lparr>ins_conversationId = field message ''conversationId'', ins_role = ''assistant'',
      ins_content = JStr text, ins_model = field message ''model'', ins_tokenUsage = JUndefined\<rparr>"

definition after_assistant :: "env \<Rightarrow> jsval \<Rightarrow> MemStorage \<Rightarrow> string \<Rightarrow> MemStorage" where
  "after_assistant e message st text =
     snd (createMessage (after_user e message st) (asst_uuid e) (asst_created e) (asst_touched e)
            (assistant_insert message text))"

text \<open>The history a backend call receives, and the state of the run when the stream of
  the backend has been consumed (\<open>b\<close> tells whether the backend is OpenAI).\<close>

definition history :: "env \<Rightarrow> jsval \<Rightarrow> MemStorage \<Rightarrow> (string \<times> jsval) list" where
  "history e message st =
     map (\<lambda>m. (msg_role m, msg_content m))
       (getMessagesByConversation (after_user e message st) (field message ''conversationId''))"

definition streamed :: "env \<Rightarrow> jsval \<Rightarrow> MemStorage \<Rightarrow> bool \<Rightarrow> turn_state" where
  "streamed e message st b =
     \<lparr>storage = after_user e message st,
      aiResponse = concat (backend_fragments e b),
      log = Persisted (user_message e message) #
            map Sent (delivered (readyState e) 0 [streaming_start]) @
            Invoked (if b then OpenAI else Anthropic) (history e message st) (field message ''model'') #
            map Sent (delivered (readyState e) (Suc 0) (map streaming_chunk (backend_fragments e b))),
      checks = Suc (length (backend_fragments e b))\<rparr>"

text \<open>The failure of a turn, if it fails: \<^verbatim>\<open>model.includes\<close> throws or the backend
  rejects. Its message is what the \<^verbatim>\<open>catch\<close> block reports.\<close>

definition turn_failure :: "env \<Rightarrow> jsval \<Rightarrow> string option" where
  "turn_failure e message =
     (case includes_gpt (field message ''model'') of
        Inl err \<Rightarrow> Some (error_message err)
      | Inr b \<Rightarrow> (case backend_ending e b of Throws err \<Rightarrow> Some (backend_error b err) | _ \<Rightarrow> None))"

definition backend_completes :: "env \<Rightarrow> jsval \<Rightarrow> bool" where
  "backend_completes e message =
     (case includes_gpt (field message ''model'') of
        Inl err \<Rightarrow> False
      | Inr b \<Rightarrow> backend_ending e b = Done)"

section \<open>Example data\<close>

definition example_store :: MemStorage where
  "example_store =
     \<lparr>conversations =
        [(''c1'', \<lparr>conv_id = ''c1'', conv_title = ''first'', conv_model = ''gpt-5'',
                  conv_mode = ''chat'', conv_createdAt = 1, conv_updatedAt = 30\<rparr>),
         (''c2'', \<lparr>conv_id = ''c2'', conv_title = ''second'', conv_model = ''gpt-5'',
                  conv_mode = ''chat'', conv_createdAt = 2, conv_updatedAt = 20\<rparr>)],
      messages =
        [(''m1'', \<lparr>msg_id = ''m1'', msg_conversationId = JStr ''c1'', msg_role = ''user'',
                  msg_content = JStr ''Hi'', msg_model = JNull, msg_tokenUsage = JNull,
                  msg_createdAt = 10\<rparr>),
         (''m2'', \<lparr>msg_id = ''m2'', msg_conversationId = JStr ''c2'', msg_role = ''user'',
                  msg_content = JStr ''Hey'', msg_model = JNull, msg_tokenUsage = JNull,
                  msg_createdAt = 20\<rparr>),
         (''m3'', \<lparr>msg_id = ''m3'', msg_conversationId = JStr ''c1'', msg_role = ''assistant'',
                  msg_content = JStr ''Hello!'', msg_model = JStr ''gpt-5'', msg_tokenUsage = JNull,
                  msg_createdAt = 30\<rparr>)],
      uploadedFiles =
        [(''f1'', \<lparr>file_id = ''f1'', file_name = ''a'', file_originalName = ''a.txt'',
                  file_mimeType = ''text/plain'', file_size = 3, file_path = ''uploads/a'',
                  file_conversationId = Some ''c1'', file_createdAt = 11\<rparr>),
         (''f2'', \<lparr>file_id = ''f2'', file_name = ''b'', file_originalName = ''b.txt'',
                  file_mimeType = ''text/plain'', file_size = 4, file_path = ''uploads/b'',
                  file_conversationId = Some ''c2'', file_createdAt = 21\<rparr>)]\<rparr>"

text \<open>
  The scenario of the specification: conversation \<^verbatim>\<open>C1\<close> exists and is empty, the client
  sends \<^verbatim>\<open>{type:"chat", conversationId:"C1", content:"Hi", model:"gpt-5", mode:"chat"}\<close>,
  the connection stays open, and the OpenAI stream delivers \<^verbatim>\<open>"Hel"\<close>, \<^verbatim>\<open>"lo!"\<close> and a
  last chunk that reports a usage of 5.
\<close>

definition scenario_request :: jsval where
  "scenario_request =
     JObj 0 [(''type'', JStr ''chat''), (''conversationId'', JStr ''C1''), (''content'', JStr ''Hi''),
             (''model'', JStr ''gpt-5''), (''mode'', JStr ''chat'')]"

definition scenario_env :: env where
  "scenario_env =
     \<lparr>readyState = (\<lambda>k. OPEN),
      user_uuid = ''u1'', user_created = 1000, user_touched = 1001,
      asst_uuid = ''a1'', asst_created = 2000, asst_touched = 2001,
      openai_reply =
        Stream [\<lparr>delta_content = Some ''Hel'', chunk_usage = None\<rparr>,
                \<lparr>delta_content = Some ''lo!'', chunk_usage = None\<rparr>,
                \<lparr>delta_content = None, chunk_usage = Some 5\<rparr>] Done,
      anthropic_reply = Stream [content_block_delta (text_delta ''Bon''), other_event,
                                content_block_delta (text_delta ''jour''), message_usage 7] Done\<rparr>"

definition scenario_store :: MemStorage where
  "scenario_store =
     \<lparr>conversations =
        [(''C1'', \<lparr>conv_id = ''C1'', conv_title = ''New chat'', conv_model = ''gpt-5'',
                  conv_mode = ''chat'', conv_createdAt = 500, conv_updatedAt = 500\<rparr>)],
      messages = [], uploadedFiles = []\<rparr>"

text \<open>Variations: a backend that rejects at once, one that fails after a fragment, and a
  connection that closes after two readings.\<close>

definition rate_limited_env :: env where
  "rate_limited_env = scenario_env\<lparr>openai_reply := Stream [] (Throws (ErrorObj ''rate limited''))\<rparr>"

definition failing_env :: env where
  "failing_env =
     scenario_env\<lparr>openai_reply :=
       Stream [\<lparr>delta_content = Some ''Hel'', chunk_usage = None\<rparr>] (Throws (ErrorObj ''socket hang up''))\<rparr>"

definition closing_env :: env where
  "closing_env = scenario_env\<lparr>readyState := (\<lambda>k. if k < 2 then OPEN else CLOSED)\<rparr>"

text \<open>Other inbound frames: chat requests without \<^verbatim>\<open>model\<close>, with nothing but the type,
  for a conversation that no store here holds, and a frame of another type.\<close>

definition request_without_model :: jsval where
  "request_without_model =
     JObj 0 [(''type'', JStr ''chat''), (''conversationId'', JStr ''C1''), (''content'', JStr ''Hi'')]"

definition bare_chat_request :: jsval where
  "bare_chat_request = JObj 0 [(''type'', JStr ''chat'')]"

definition orphan_request :: jsval where
  "orphan_request =
     JObj 0 [(''type'', JStr ''chat''), (''conversationId'', JStr ''gone''), (''content'', JStr ''Salut''),
             (''model'', JStr ''claude-sonnet-4-20250514''), (''mode'', JStr ''chat'')]"

definition ping_request :: jsval where
  "ping_request = JObj 0 [(''type'', JStr ''ping''), (''content'', JStr ''Hi'')]"

section \<open>Properties of the store\<close>

lemma Map_set_mem: "(k, v) \<in> set (Map_set k v m)"
  by (induction m) auto

lemma Map_set_subset: "set (Map_set k v m) \<subseteq> insert (k, v) (set m)"
  by (induction m) auto

lemma Map_set_other: "p \<in> set m \<Longrightarrow> fst p \<noteq> k \<Longrightarrow> p \<in> set (Map_set k v m)"
  by (induction m) auto

lemma Map_set_keys: "set (map fst (Map_set k v m)) = insert k (set (map fst m))"
  by (induction m) auto

lemma Map_set_distinct: "distinct (map fst m) \<Longrightarrow> distinct (map fst (Map_set k v m))"
  by (induction m) (auto simp: Map_set_keys[simplified])

lemma list_all_Map_set: "list_all P m \<Longrightarrow> P (k, v) \<Longrightarrow> list_all P (Map_set k v m)"
  by (induction m) auto

lemma createMessage_fst:
  "fst (createMessage st u c t ins) =
     \<lparr>msg_id = u, msg_conversationId = ins_conversationId ins, msg_role = ins_role ins,
      msg_content = ins_content ins, msg_model = or_null (ins_model ins),
      msg_tokenUsage = or_null (ins_tokenUsage ins), msg_createdAt = c\<rparr>"
  by (simp add: createMessage_def Let_def)

lemma updateConversation_messages: "messages (snd (updateConversation st cid f t)) = messages st"
  by (simp add: updateConversation_def Let_def split: jsval.splits option.splits)

lemma updateConversation_files: "uploadedFiles (snd (updateConversation st cid f t)) = uploadedFiles st"
  by (simp add: updateConversation_def Let_def split: jsval.splits option.splits)

lemma createMessage_messages:
  "messages (snd (createMessage st u c t ins)) = Map_set u (fst (createMessage st u c t ins)) (messages st)"
  by (simp add: createMessage_def Let_def updateConversation_messages)

lemma createMessage_files:
  "uploadedFiles (snd (createMessage st u c t ins)) = uploadedFiles st"
  by (simp add: createMessage_def Let_def updateConversation_files)


lemma set_getMessagesByConversation:
  "set (getMessagesByConversation st cid) = {m \<in> snd ` set (messages st). msg_conversationId m = cid}"
  by (auto simp: getMessagesByConversation_def Map_values_def)

lemma foldl_delete_messages:
  "foldl (\<lambda>s message. s\<lparr>messages := Map_delete (msg_id message) (messages s)\<rparr>) st ms =
     st\<lparr>messages := filter (\<lambda>p. fst p \<notin> msg_id ` set ms) (messages st)\<rparr>"
proof (induction ms arbitrary: st)
  case Nil
  show ?case by simp
next
  case (Cons m ms)
  show ?case
  proof -
    have "filter (\<lambda>p. fst p \<notin> msg_id ` set ms) (Map_delete (msg_id m) (messages st)) =
          filter (\<lambda>p. fst p \<notin> msg_id ` set (m # ms)) (messages st)"
      by (auto simp: Map_delete_def intro!: filter_cong)
    then show ?thesis by (simp add: Cons.IH)
  qed
qed

lemma foldl_delete_files:
  "foldl (\<lambda>s file. s\<lparr>uploadedFiles := Map_delete (file_id file) (uploadedFiles s)\<rparr>) st fs =
     st\<lparr>uploadedFiles := filter (\<lambda>p. fst p \<notin> file_id ` set fs) (uploadedFiles st)\<rparr>"
proof (induction fs arbitrary: st)
  case Nil
  show ?case by simp
next
  case (Cons m ms)
  show ?case
  proof -
    have "filter (\<lambda>p. fst p \<notin> file_id ` set ms) (Map_delete (file_id m) (uploadedFiles st)) =
          filter (\<lambda>p. fst p \<notin> file_id ` set (m # ms)) (uploadedFiles st)"
      by (auto simp: Map_delete_def intro!: filter_cong)
    then show ?thesis by (simp add: Cons.IH)
  qed
qed

lemma set_getUploadedFiles_owned:
  "{f \<in> snd ` set (uploadedFiles st). file_conversationId f = Some cid} \<subseteq> set (getUploadedFiles st (Some cid))"
  by (auto simp: getUploadedFiles_def Map_values_def Let_def)

lemma deleteConversation_messages:
  "messages (snd (deleteConversation st cid)) =
     filter (\<lambda>p. fst p \<notin> msg_id ` set (getMessagesByConversation st (JStr cid))) (messages st)"
  by (simp add: deleteConversation_def Let_def foldl_delete_messages foldl_delete_files)

lemma deleteConversation_files:
  "uploadedFiles (snd (deleteConversation st cid)) =
     filter (\<lambda>p. fst p \<notin> file_id ` set (getUploadedFiles st (Some cid))) (uploadedFiles st)"
  by (simp add: deleteConversation_def Let_def foldl_delete_messages foldl_delete_files getUploadedFiles_def)

lemma deleteConversation_conversations:
  "conversations (snd (deleteConversation st cid)) = Map_delete cid (conversations st)"
  by (simp add: deleteConversation_def Let_def foldl_delete_messages foldl_delete_files)

text \<open>The invariant holds of a new store and the methods keep it.\<close>

lemma store_inv_new: "store_inv new_MemStorage"
  by (simp add: store_inv_def new_MemStorage_def)

lemma updateConversation_inv:
  assumes "list_all (\<lambda>p. conv_id (snd p) = fst p) (conversations st)"
    and "distinct (map fst (conversations st))"
  shows "list_all (\<lambda>p. conv_id (snd p) = fst p) (conversations (snd (updateConversation st cid (\<lambda>c. c) t))) \<and>
         distinct (map fst (conversations (snd (updateConversation st cid (\<lambda>c. c) t))))"
proof (cases cid)
  case (JStr k)
  show ?thesis
  proof (cases "map_of (conversations st) k")
    case None
    then show ?thesis using assms JStr by (simp add: updateConversation_def Map_get_def)
  next
    case (Some conversation)
    then have "(k, conversation) \<in> set (conversations st)" by (rule map_of_SomeD)
    then have "conv_id conversation = k" using assms(1) by (auto simp: list_all_iff)
    then show ?thesis
      using assms JStr Some
      by (simp add: updateConversation_def Map_get_def Let_def list_all_Map_set Map_set_distinct)
  qed
qed (use assms in \<open>simp_all add: updateConversation_def\<close>)

lemma store_inv_createMessage:
  assumes "store_inv st"
  shows "store_inv (snd (createMessage st u c t ins))"
proof -
  let ?m = "fst (createMessage st u c t ins)"
  let ?st1 = "st\<lparr>messages := Map_set u ?m (messages st)\<rparr>"
  have eq: "snd (createMessage st u c t ins) = snd (updateConversation ?st1 (ins_conversationId ins) (\<lambda>c. c) t)"
    by (simp add: createMessage_def Let_def)
  have "msg_id ?m = u" by (simp add: createMessage_fst)
  then have m: "list_all (\<lambda>p. msg_id (snd p) = fst p) (messages ?st1) \<and> distinct (map fst (messages ?st1))"
    using assms by (simp add: store_inv_def list_all_Map_set Map_set_distinct)
  have c: "list_all (\<lambda>p. conv_id (snd p) = fst p) (conversations ?st1) \<and> distinct (map fst (conversations ?st1))"
    using assms by (simp add: store_inv_def)
  show ?thesis
    unfolding eq store_inv_def
    using updateConversation_inv[of ?st1 "ins_conversationId ins" t] m c assms
    by (simp add: updateConversation_messages updateConversation_files store_inv_def)
qed

lemma store_inv_deleteConversation:
  assumes "store_inv st"
  shows "store_inv (snd (deleteConversation st cid))"
  using assms
  by (simp add: store_inv_def deleteConversation_messages deleteConversation_files
      deleteConversation_conversations Map_delete_def list_all_iff distinct_map_filter)

section \<open>The run of a chat turn\<close>

lemma openai_for_await_eq:
  "openai_for_await f cs acc s =
     (acc @ concat (openai_fragments cs), foldl (\<lambda>s c. f c s) s (openai_fragments cs))"
  by (induction cs arbitrary: acc s) (auto simp: Let_def split: option.splits)

lemma anthropic_for_await_eq:
  "anthropic_for_await f evs acc s =
     (acc @ concat (anthropic_fragments evs), foldl (\<lambda>s c. f c s) s (anthropic_fragments evs))"
  by (induction f evs acc s rule: anthropic_for_await.induct) auto

lemma delivered_map: "delivered rs k (map f xs) = map f (delivered rs k xs)"
  by (induction xs arbitrary: k) auto

lemma delivered_append:
  "delivered rs k (xs @ ys) = delivered rs k xs @ delivered rs (k + length xs) ys"
  by (induction xs arbitrary: k) auto

lemma length_delivered: "length (delivered rs k xs) \<le> length xs"
  by (induction xs arbitrary: k) (auto simp: le_SucI)

lemma set_delivered: "set (delivered rs k xs) \<subseteq> set xs"
  by (induction xs arbitrary: k) auto

lemma delivered_all_open:
  "(\<And>i. i < length xs \<Longrightarrow> rs (k + i) = OPEN) \<Longrightarrow> delivered rs k xs = xs"
proof (induction xs arbitrary: k)
  case Nil
  show ?case by simp
next
  case (Cons x xs)
  have "rs k = OPEN" using Cons.prems[of 0] by simp
  moreover have "delivered rs (Suc k) xs = xs"
  proof (rule Cons.IH)
    fix i assume "i < length xs"
    then show "rs (Suc k + i) = OPEN" using Cons.prems[of "Suc i"] by simp
  qed
  ultimately show ?case by simp
qed

lemma butlast_delivered:
  assumes "\<forall>f \<in> set pre. \<not> P f" and "length t \<le> 1"
  shows "\<forall>f \<in> set (butlast (delivered rs k (pre @ t))). \<not> P f"
proof -
  let ?A = "delivered rs k pre" and ?B = "delivered rs (k + length pre) t"
  have A: "\<forall>f \<in> set ?A. \<not> P f"
    using assms(1) set_delivered[of rs k pre] by blast
  have "length ?B \<le> 1"
    using length_delivered[of rs "k + length pre" t] assms(2) by simp
  then have "?B = [] \<or> (\<exists>x. ?B = [x])"
    by (cases ?B) auto
  then have "set (butlast (?A @ ?B)) \<subseteq> set ?A"
    by (auto dest: in_set_butlastD)
  then show ?thesis using A by (auto simp: delivered_append)
qed

lemma foldl_on_chunk:
  "foldl (\<lambda>s c. on_chunk e c s) s fs =
     s\<lparr>aiResponse := aiResponse s @ concat fs,
       log := log s @ map Sent (delivered (readyState e) (checks s) (map streaming_chunk fs)),
       checks := checks s + length fs\<rparr>"
  by (induction fs arbitrary: s) (auto simp: on_chunk_def send_if_open_def)

lemma backend_run:
  "(if b then openai_generateStreamingCompletion (openai_reply e) (on_chunk e) s
    else anthropic_generateStreamingCompletion (anthropic_reply e) (on_chunk e) s) =
   (case backend_ending e b of
      Done \<Rightarrow> Resolved \<lparr>res_content = concat (backend_fragments e b), res_tokenUsage = JUndefined\<rparr>
    | Throws err \<Rightarrow> Rejected (ErrorObj (backend_error b err))
    | Hangs \<Rightarrow> Pending,
    foldl (\<lambda>s c. on_chunk e c s) s (backend_fragments e b))"
  by (simp add: openai_generateStreamingCompletion_def anthropic_generateStreamingCompletion_def
      openai_for_await_eq anthropic_for_await_eq backend_ending_def backend_fragments_def
      backend_error_def split: stream_end.splits)

lemma user_message_created:
  "createMessage st (user_uuid e) (user_created e) (user_touched e) (user_insert message) =
     (user_message e message, after_user e message st)"
  by (simp add: after_user_def prod_eq_iff createMessage_fst user_insert_def user_message_def or_null_def)

lemma assistant_message_created:
  "createMessage (after_user e message st) (asst_uuid e) (asst_created e) (asst_touched e)
      (assistant_insert message text) =
     (assistant_message e message text, after_assistant e message st text)"
  by (simp add: after_assistant_def prod_eq_iff createMessage_fst assistant_insert_def
      assistant_message_def or_null_def)

lemma handle_chat_rejected_early:
  assumes "includes_gpt (field message ''model'') = Inl err"
  shows "handle_chat e message (begin_turn st) =
           (Rejected err, \<lparr>storage = after_user e message st, aiResponse = [],
                           log = [Persisted (user_message e message)], checks = 0\<rparr>)"
  using assms
  by (simp add: handle_chat_def Let_def user_message_created[unfolded user_insert_def] begin_turn_def)

lemma handle_chat_streamed:
  assumes "includes_gpt (field message ''model'') = Inr b"
  shows "handle_chat e message (begin_turn st) =
           (case backend_ending e b of
              Done \<Rightarrow>
                (Resolved (),
                 send_if_open e (streaming_complete (concat (backend_fragments e b)) JUndefined)
                   ((streamed e message st b)
                      \<lparr>storage := after_assistant e message st (concat (backend_fragments e b)),
                       log := log (streamed e message st b) @
                              [Persisted (assistant_message e message (concat (backend_fragments e b)))]\<rparr>))
            | Throws err \<Rightarrow> (Rejected (ErrorObj (backend_error b err)), streamed e message st b)
            | Hangs \<Rightarrow> (Pending, streamed e message st b))"
  using assms
  by (simp add: handle_chat_def Let_def user_message_created[unfolded user_insert_def] begin_turn_def
      backend_run foldl_on_chunk send_if_open_def streamed_def history_def
      assistant_message_created[unfolded assistant_insert_def]
      split: stream_end.splits)

lemma frames_sent_append: "frames_sent (xs @ ys) = frames_sent xs @ frames_sent ys"
  by (induction xs rule: frames_sent.induct) auto

lemma frames_sent_map_Sent: "frames_sent (map Sent fs) = fs"
  by (induction fs) auto

lemma on_message_early:
  assumes "is_chat message" and "includes_gpt (field message ''model'') = Inl err"
  shows "on_message e (Parsed message) (begin_turn st) =
           send_if_open e (error_frame (error_message err))
             \<lparr>storage = after_user e message st, aiResponse = [],
              log = [Persisted (user_message e message)], checks = 0\<rparr>"
  using assms by (simp add: on_message_def is_chat_def handle_chat_rejected_early)

lemma on_message_streamed:
  assumes "is_chat message" and "includes_gpt (field message ''model'') = Inr b"
  shows "on_message e (Parsed message) (begin_turn st) =
           (case backend_ending e b of
              Done \<Rightarrow>
                send_if_open e (streaming_complete (concat (backend_fragments e b)) JUndefined)
                  ((streamed e message st b)
                     \<lparr>storage := after_assistant e message st (concat (backend_fragments e b)),
                      log := log (streamed e message st b) @
                             [Persisted (assistant_message e message (concat (backend_fragments e b)))]\<rparr>)
            | Throws err \<Rightarrow> send_if_open e (error_frame (backend_error b err)) (streamed e message st b)
            | Hangs \<Rightarrow> streamed e message st b)"
  using assms
  by (simp add: on_message_def is_chat_def handle_chat_streamed error_message_def split: stream_end.splits)

lemma frames_streamed:
  "frames_sent (log (streamed e message st b)) =
     delivered (readyState e) 0 (streaming_start # map streaming_chunk (backend_fragments e b))"
  by (simp add: streamed_def frames_sent_append frames_sent_map_Sent)

lemma checks_streamed: "checks (streamed e message st b) = Suc (length (backend_fragments e b))"
  by (simp add: streamed_def)

lemma turn_frames_sent:
  assumes "is_chat message"
  shows "frames_sent (log (on_message e (Parsed message) (begin_turn st))) =
           delivered (readyState e) 0 (turn_frames e (field message ''model''))"
proof (cases "includes_gpt (field message ''model'')")
  case (Inl err)
  then show ?thesis
    using assms by (simp add: on_message_early send_if_open_def turn_frames_def)
next
  case (Inr b)
  have app: "\<And>t. delivered (readyState e) 0 (streaming_start # map streaming_chunk (backend_fragments e b) @ t) =
      delivered (readyState e) 0 (streaming_start # map streaming_chunk (backend_fragments e b)) @
      delivered (readyState e) (Suc (length (backend_fragments e b))) t"
    using delivered_append[of "readyState e" 0 "streaming_start # map streaming_chunk (backend_fragments e b)"]
    by simp
  show ?thesis
  proof (cases "backend_ending e b")
    case Done
    then show ?thesis
      using assms Inr
      by (simp add: on_message_streamed send_if_open_def turn_frames_def frames_sent_append
          frames_streamed checks_streamed app del: delivered.simps)
         (simp)
  next
    case (Throws err)
    then show ?thesis
      using assms Inr
      by (simp add: on_message_streamed send_if_open_def turn_frames_def frames_sent_append
          frames_streamed checks_streamed app del: delivered.simps)
         (simp)
  next
    case Hangs
    then show ?thesis
      using assms Inr
      by (simp add: on_message_streamed turn_frames_def frames_streamed)
  qed
qed

lemma turn_storage:
  assumes "is_chat message"
  shows "storage (on_message e (Parsed message) (begin_turn st)) =
           (case includes_gpt (field message ''model'') of
              Inl err \<Rightarrow> after_user e message st
            | Inr b \<Rightarrow>
                (case backend_ending e b of
                   Done \<Rightarrow> after_assistant e message st (concat (backend_fragments e b))
                 | _ \<Rightarrow> after_user e message st))"
  using assms
  by (auto simp: on_message_early on_message_streamed send_if_open_def streamed_def
      split: sum.splits stream_end.splits)

lemma turn_frames_split:
  "\<exists>pre t. turn_frames e model = pre @ t \<and> (\<forall>f \<in> set pre. \<not> is_terminal f) \<and> length t \<le> 1"
proof (cases "includes_gpt model")
  case (Inl err)
  then have "turn_frames e model = [] @ [error_frame (error_message err)]"
    by (simp add: turn_frames_def)
  then show ?thesis by force
next
  case (Inr b)
  let ?pre = "streaming_start # map streaming_chunk (backend_fragments e b)"
  have pre: "\<forall>f \<in> set ?pre. \<not> is_terminal f" by auto
  obtain t where "turn_frames e model = ?pre @ t" "length t \<le> 1"
    by (cases "backend_ending e b") (simp_all add: turn_frames_def Inr)
  with pre show ?thesis by blast
qed

lemma tl_delivered_no_start:
  "streaming_start \<notin> set (tl (delivered rs 0 (turn_frames e model)))"
proof (cases "includes_gpt model")
  case (Inl err)
  then show ?thesis by (simp add: turn_frames_def)
next
  case (Inr b)
  obtain rest where tf: "turn_frames e model = streaming_start # rest"
    and rest: "streaming_start \<notin> set rest"
    by (cases "backend_ending e b") (auto simp: turn_frames_def Inr)
  let ?D = "delivered rs (Suc 0) rest"
  have D: "streaming_start \<notin> set ?D"
    using rest set_delivered[of rs "Suc 0" rest] by blast
  then have "streaming_start \<notin> set (tl ?D)"
    by (cases ?D) auto
  with D show ?thesis by (simp add: tf)
qed

lemma messages_after_user:
  "messages (after_user e message st) = Map_set (user_uuid e) (user_message e message) (messages st)"
  using createMessage_messages[of st "user_uuid e" "user_created e" "user_touched e" "user_insert message"]
  by (simp add: user_message_created)

lemma messages_after_assistant:
  "messages (after_assistant e message st text) =
     Map_set (asst_uuid e) (assistant_message e message text) (messages (after_user e message st))"
  using createMessage_messages[of "after_user e message st" "asst_uuid e" "asst_created e" "asst_touched e"
      "assistant_insert message text"]
  by (simp add: assistant_message_created)

lemma user_message_retrievable:
  "user_message e message \<in>
     set (getMessagesByConversation (after_user e message st) (field message ''conversationId''))"
proof -
  have "(user_uuid e, user_message e message) \<in> set (messages (after_user e message st))"
    by (simp add: messages_after_user Map_set_mem)
  then have "user_message e message \<in> snd ` set (messages (after_user e message st))"
    by force
  then show ?thesis
    by (simp add: set_getMessagesByConversation user_message_def)
qed

lemma assistant_message_retrievable:
  "assistant_message e message text \<in>
     set (getMessagesByConversation (after_assistant e message st text) (field message ''conversationId''))"
proof -
  have "(asst_uuid e, assistant_message e message text) \<in> set (messages (after_assistant e message st text))"
    by (simp add: messages_after_assistant Map_set_mem)
  then have "assistant_message e message text \<in> snd ` set (messages (after_assistant e message st text))"
    by force
  then show ?thesis
    by (simp add: set_getMessagesByConversation assistant_message_def)
qed

lemma user_message_survives:
  assumes "asst_uuid e \<noteq> user_uuid e"
  shows "user_message e message \<in>
     set (getMessagesByConversation (after_assistant e message st text) (field message ''conversationId''))"
proof -
  have "(user_uuid e, user_message e message) \<in> set (messages (after_user e message st))"
    by (simp add: messages_after_user Map_set_mem)
  then have "(user_uuid e, user_message e message) \<in> set (messages (after_assistant e message st text))"
    using assms by (simp add: messages_after_assistant Map_set_other)
  then have "user_message e message \<in> snd ` set (messages (after_assistant e message st text))"
    by force
  then show ?thesis
    by (simp add: set_getMessagesByConversation user_message_def)
qed

lemma chunk_payloads_chunks: "chunk_payloads (map streaming_chunk fs @ rest) = fs @ chunk_payloads rest"
  by (induction fs) auto

lemma complete_only_chat:
  assumes "streaming_complete c u \<in> set (frames_sent (log (on_message e (Parsed message) (begin_turn st))))"
  shows "is_chat message"
proof (rule ccontr)
  assume "\<not> is_chat message"
  then have "set (frames_sent (log (on_message e (Parsed message) (begin_turn st)))) \<subseteq> range error_frame"
    by (auto simp: on_message_def is_chat_def send_if_open_def begin_turn_def split: sum.splits if_splits)
  with assms show False by auto
qed

lemma log_streamed_Invoked:
  "Invoked svc h m \<in> set (log (streamed e message st b)) \<Longrightarrow> h = history e message st"
  by (auto simp: streamed_def)

lemma log_streamed_Persisted:
  "Persisted x \<in> set (log (streamed e message st b)) \<Longrightarrow> x = user_message e message"
  by (auto simp: streamed_def)

lemma log_streamed_hd:
  "\<exists>rest. log (streamed e message st b) = Persisted (user_message e message) # rest"
  by (simp add: streamed_def)

lemma history_has_user_message:
  "(''user'', field message ''content'') \<in> set (history e message st)"
proof -
  have "(msg_role (user_message e message), msg_content (user_message e message)) \<in>
          (\<lambda>m. (msg_role m, msg_content m)) `
            set (getMessagesByConversation (after_user e message st) (field message ''conversationId''))"
    using user_message_retrievable[of e message st] by (rule imageI)
  then show ?thesis by (simp add: history_def user_message_def)
qed

lemma turn_log_hd:
  assumes "is_chat message"
  shows "\<exists>rest. log (on_message e (Parsed message) (begin_turn st)) = Persisted (user_message e message) # rest"
proof (cases "includes_gpt (field message ''model'')")
  case (Inl err)
  then show ?thesis using assms by (simp add: on_message_early send_if_open_def)
next
  case (Inr b)
  obtain rest where "log (streamed e message st b) = Persisted (user_message e message) # rest"
    using log_streamed_hd by blast
  then show ?thesis
    using assms Inr by (cases "backend_ending e b") (simp_all add: on_message_streamed send_if_open_def)
qed

lemma turn_log_Invoked:
  assumes "is_chat message"
    and "Invoked svc h m \<in> set (log (on_message e (Parsed message) (begin_turn st)))"
  shows "h = history e message st"
proof (cases "includes_gpt (field message ''model'')")
  case (Inl err)
  then show ?thesis using assms by (simp add: on_message_early send_if_open_def split: if_splits)
next
  case (Inr b)
  then have "Invoked svc h m \<in> set (log (streamed e message st b))"
    using assms
    by (cases "backend_ending e b") (auto simp: on_message_streamed send_if_open_def split: if_splits)
  then show ?thesis by (rule log_streamed_Invoked)
qed

lemma turn_log_Persisted_failed:
  assumes "is_chat message" and "\<not> backend_completes e message"
    and "Persisted x \<in> set (log (on_message e (Parsed message) (begin_turn st)))"
  shows "x = user_message e message"
proof (cases "includes_gpt (field message ''model'')")
  case (Inl err)
  then show ?thesis using assms by (simp add: on_message_early send_if_open_def split: if_splits)
next
  case (Inr b)
  then have "backend_ending e b \<noteq> Done" using assms(2) by (simp add: backend_completes_def)
  then have "Persisted x \<in> set (log (streamed e message st b))"
    using assms Inr
    by (cases "backend_ending e b") (auto simp: on_message_streamed send_if_open_def split: if_splits)
  then show ?thesis by (rule log_streamed_Persisted)
qed

lemma failed_turn_frames:
  assumes "is_chat message" and "turn_failure e message = Some reason"
  shows "\<exists>pre. turn_frames e (field message ''model'') = pre @ [error_frame reason] \<and>
               (\<forall>f \<in> set pre. \<not> is_terminal f) \<and>
               checks (on_message e (Parsed message) (begin_turn st)) = Suc (length pre)"
proof (cases "includes_gpt (field message ''model'')")
  case (Inl err)
  then have "turn_frames e (field message ''model'') = [] @ [error_frame reason]"
    using assms by (simp add: turn_frames_def turn_failure_def)
  moreover have "checks (on_message e (Parsed message) (begin_turn st)) = Suc 0"
    using assms Inl by (simp add: on_message_early send_if_open_def)
  ultimately show ?thesis by force
next
  case (Inr b)
  then obtain err where thr: "backend_ending e b = Throws err" and r: "reason = backend_error b err"
    using assms by (auto simp: turn_failure_def split: stream_end.splits)
  have "turn_frames e (field message ''model'') =
          (streaming_start # map streaming_chunk (backend_fragments e b)) @ [error_frame reason]"
    by (simp add: turn_frames_def Inr thr r)
  moreover have "\<forall>f \<in> set (streaming_start # map streaming_chunk (backend_fragments e b)). \<not> is_terminal f"
    by auto
  moreover have "checks (on_message e (Parsed message) (begin_turn st)) =
                   Suc (length (streaming_start # map streaming_chunk (backend_fragments e b)))"
    using assms Inr thr by (simp add: on_message_streamed send_if_open_def checks_streamed)
  ultimately show ?thesis by blast
qed

section \<open>Runs on the example data\<close>

lemmas relay_defs =
  on_message_def handle_chat_def begin_turn_def send_if_open_def on_chunk_def field_def
  openai_generateStreamingCompletion_def anthropic_generateStreamingCompletion_def
  createMessage_def updateConversation_def getMessagesByConversation_def
  Map_get_def Map_values_def or_null_def error_message_def Let_def

lemmas example_defs =
  scenario_request_def scenario_env_def scenario_store_def request_without_model_def
  orphan_request_def rate_limited_env_def failing_env_def closing_env_def
  bare_chat_request_def ping_request_def example_store_def new_MemStorage_def

lemmas turn_eval =
  backend_ending_def backend_fragments_def backend_error_def streamed_def send_if_open_def
  history_def after_user_def after_assistant_def user_insert_def assistant_insert_def
  user_message_def assistant_message_def createMessage_def updateConversation_def
  getMessagesByConversation_def Map_get_def Map_values_def or_null_def field_def
  error_message_def Let_def

lemma is_chat_scenario_request: "is_chat scenario_request"
  by (simp add: is_chat_def scenario_request_def)

lemma model_scenario_request: "includes_gpt (field scenario_request ''model'') = Inr True"
  by (simp add: field_def scenario_request_def)



lemma is_chat_request_without_model: "is_chat request_without_model"
  by (simp add: is_chat_def request_without_model_def)

lemma model_request_without_model:
  "includes_gpt (field request_without_model ''model'') =
     Inl (ErrorObj (''Cannot read properties of undefined (reading '' @ [CHR 0x27] @
                    ''includes'' @ [CHR 0x27] @ '')''))"
  by (simp add: field_def request_without_model_def)

lemma is_chat_bare_chat_request: "is_chat bare_chat_request"
  by (simp add: is_chat_def bare_chat_request_def)

lemma model_bare_chat_request:
  "includes_gpt (field bare_chat_request ''model'') =
     Inl (ErrorObj (''Cannot read properties of undefined (reading '' @ [CHR 0x27] @
                    ''includes'' @ [CHR 0x27] @ '')''))"
  by (simp add: field_def bare_chat_request_def)

lemma conversation_scenario_request: "field scenario_request ''conversationId'' = JStr ''C1''"
  by (simp add: field_def scenario_request_def)

lemma user_message_failing:
  "user_message failing_env scenario_request =
     \<lparr>msg_id = ''u1'', msg_conversationId = JStr ''C1'', msg_role = ''user'',
      msg_content = JStr ''Hi'', msg_model = JNull, msg_tokenUsage = JNull, msg_createdAt = 1000\<rparr>"
  by (simp add: user_message_def field_def example_defs)

lemma always_open_examples:
  "readyState scenario_env k = OPEN" "readyState failing_env k = OPEN" "readyState rate_limited_env k = OPEN"
  by (simp_all add: example_defs)

lemma scenario_run:
  "log (on_message scenario_env (Parsed scenario_request) (begin_turn scenario_store)) =
     [Persisted \<lparr>msg_id = ''u1'', msg_conversationId = JStr ''C1'', msg_role = ''user'',
                 msg_content = JStr ''Hi'', msg_model = JNull, msg_tokenUsage = JNull,
                 msg_createdAt = 1000\<rparr>,
      Sent streaming_start,
      Invoked OpenAI [(''user'', JStr ''Hi'')] (JStr ''gpt-5''),
      Sent (streaming_chunk ''Hel''),
      Sent (streaming_chunk ''lo!''),
      Persisted \<lparr>msg_id = ''a1'', msg_conversationId = JStr ''C1'', msg_role = ''assistant'',
                 msg_content = JStr ''Hello!'', msg_model = JStr ''gpt-5'', msg_tokenUsage = JNull,
                 msg_createdAt = 2000\<rparr>,
      Sent (streaming_complete ''Hello!'' JUndefined)]"
  "messages (storage (on_message scenario_env (Parsed scenario_request) (begin_turn scenario_store))) =
     [(''u1'', \<lparr>msg_id = ''u1'', msg_conversationId = JStr ''C1'', msg_role = ''user'',
                msg_content = JStr ''Hi'', msg_model = JNull, msg_tokenUsage = JNull,
                msg_createdAt = 1000\<rparr>),
      (''a1'', \<lparr>msg_id = ''a1'', msg_conversationId = JStr ''C1'', msg_role = ''assistant'',
                msg_content = JStr ''Hello!'', msg_model = JStr ''gpt-5'', msg_tokenUsage = JNull,
                msg_createdAt = 2000\<rparr>)]"
  by (simp_all only: on_message_streamed [OF is_chat_scenario_request model_scenario_request])
     (simp_all add: turn_eval example_defs)

lemma failing_run:
  "log (on_message failing_env (Parsed scenario_request) (begin_turn scenario_store)) =
     [Persisted \<lparr>msg_id = ''u1'', msg_conversationId = JStr ''C1'', msg_role = ''user'',
                 msg_content = JStr ''Hi'', msg_model = JNull, msg_tokenUsage = JNull,
                 msg_createdAt = 1000\<rparr>,
      Sent streaming_start,
      Invoked OpenAI [(''user'', JStr ''Hi'')] (JStr ''gpt-5''),
      Sent (streaming_chunk ''Hel''),
      Sent (error_frame ''OpenAI API error: socket hang up'')]"
  "messages (storage (on_message failing_env (Parsed scenario_request) (begin_turn scenario_store))) =
     [(''u1'', \<lparr>msg_id = ''u1'', msg_conversationId = JStr ''C1'', msg_role = ''user'',
                msg_content = JStr ''Hi'', msg_model = JNull, msg_tokenUsage = JNull,
                msg_createdAt = 1000\<rparr>)]"
  by (simp_all only: on_message_streamed [OF is_chat_scenario_request model_scenario_request])
     (simp_all add: turn_eval example_defs)

lemma rate_limited_run:
  "log (on_message rate_limited_env (Parsed scenario_request) (begin_turn scenario_store)) =
     [Persisted \<lparr>msg_id = ''u1'', msg_conversationId = JStr ''C1'', msg_role = ''user'',
                 msg_content = JStr ''Hi'', msg_model = JNull, msg_tokenUsage = JNull,
                 msg_createdAt = 1000\<rparr>,
      Sent streaming_start,
      Invoked OpenAI [(''user'', JStr ''Hi'')] (JStr ''gpt-5''),
      Sent (error_frame ''OpenAI API error: rate limited'')]"
  "messages (storage (on_message rate_limited_env (Parsed scenario_request) (begin_turn scenario_store))) =
     [(''u1'', \<lparr>msg_id = ''u1'', msg_conversationId = JStr ''C1'', msg_role = ''user'',
                msg_content = JStr ''Hi'', msg_model = JNull, msg_tokenUsage = JNull,
                msg_createdAt = 1000\<rparr>)]"
  "checks (on_message rate_limited_env (Parsed scenario_request) (begin_turn scenario_store)) = 2"
  by (simp_all only: on_message_streamed [OF is_chat_scenario_request model_scenario_request])
     (simp_all add: turn_eval example_defs)

lemma closing_run:
  "log (on_message closing_env (Parsed scenario_request) (begin_turn scenario_store)) =
     [Persisted \<lparr>msg_id = ''u1'', msg_conversationId = JStr ''C1'', msg_role = ''user'',
                 msg_content = JStr ''Hi'', msg_model = JNull, msg_tokenUsage = JNull,
                 msg_createdAt = 1000\<rparr>,
      Sent streaming_start,
      Invoked OpenAI [(''user'', JStr ''Hi'')] (JStr ''gpt-5''),
      Sent (streaming_chunk ''Hel''),
      Persisted \<lparr>msg_id = ''a1'', msg_conversationId = JStr ''C1'', msg_role = ''assistant'',
                 msg_content = JStr ''Hello!'', msg_model = JStr ''gpt-5'', msg_tokenUsage = JNull,
                 msg_createdAt = 2000\<rparr>]"
  "messages (storage (on_message closing_env (Parsed scenario_request) (begin_turn scenario_store))) =
     [(''u1'', \<lparr>msg_id = ''u1'', msg_conversationId = JStr ''C1'', msg_role = ''user'',
                msg_content = JStr ''Hi'', msg_model = JNull, msg_tokenUsage = JNull,
                msg_createdAt = 1000\<rparr>),
      (''a1'', \<lparr>msg_id = ''a1'', msg_conversationId = JStr ''C1'', msg_role = ''assistant'',
                msg_content = JStr ''Hello!'', msg_model = JStr ''gpt-5'', msg_tokenUsage = JNull,
                msg_createdAt = 2000\<rparr>)]"
  "aiResponse (on_message closing_env (Parsed scenario_request) (begin_turn scenario_store)) = ''Hello!''"
  by (simp_all only: on_message_streamed [OF is_chat_scenario_request model_scenario_request])
     (simp_all add: turn_eval example_defs)

lemma no_model_run:
  "log (on_message scenario_env (Parsed request_without_model) (begin_turn scenario_store)) =
     [Persisted \<lparr>msg_id = ''u1'', msg_conversationId = JStr ''C1'', msg_role = ''user'',
                 msg_content = JStr ''Hi'', msg_model = JNull, msg_tokenUsage = JNull,
                 msg_createdAt = 1000\<rparr>,
      Sent (error_frame (''Cannot read properties of undefined (reading '' @ [CHR 0x27] @
                         ''includes'' @ [CHR 0x27] @ '')''))]"
  by (simp only: on_message_early [OF is_chat_request_without_model model_request_without_model])
     (simp add: turn_eval example_defs)

lemma bare_run:
  "log (on_message scenario_env (Parsed bare_chat_request) (begin_turn scenario_store)) =
     [Persisted \<lparr>msg_id = ''u1'', msg_conversationId = JUndefined, msg_role = ''user'',
                 msg_content = JUndefined, msg_model = JNull, msg_tokenUsage = JNull,
                 msg_createdAt = 1000\<rparr>,
      Sent (error_frame (''Cannot read properties of undefined (reading '' @ [CHR 0x27] @
                         ''includes'' @ [CHR 0x27] @ '')''))]"
  "messages (storage (on_message scenario_env (Parsed bare_chat_request) (begin_turn scenario_store))) =
     [(''u1'', \<lparr>msg_id = ''u1'', msg_conversationId = JUndefined, msg_role = ''user'',
                msg_content = JUndefined, msg_model = JNull, msg_tokenUsage = JNull,
                msg_createdAt = 1000\<rparr>)]"
  by (simp_all only: on_message_early [OF is_chat_bare_chat_request model_bare_chat_request])
     (simp_all add: turn_eval example_defs)



section \<open>The claims\<close>

text \<open>
  C1. In a successful chat turn, that is, one whose \<^verbatim>\<open>streaming_complete\<close> frame is sent,
  the payloads of all \<^verbatim>\<open>streaming_chunk\<close> frames, concatenated in the order of sending,
  are the content of the \<^verbatim>\<open>streaming_complete\<close> frame, and an assistant message with that
  content is among the messages \<open>getMessagesByConversation\<close> returns for the conversation
  afterwards. The connection is one that, once it has left the open state, stays out of
  it.
\<close>

theorem chunks_concat_equals_complete:
  assumes mono: "never_reopens (readyState e)"
    and sent: "streaming_complete c u \<in> set (frames_sent (log (on_message e (Parsed message) (begin_turn st))))"
  shows "concat (chunk_payloads (frames_sent (log (on_message e (Parsed message) (begin_turn st))))) = c \<and>
         (\<exists>m \<in> set (getMessagesByConversation (storage (on_message e (Parsed message) (begin_turn st)))
                      (field message ''conversationId'')).
             msg_role m = ''assistant'' \<and> msg_content m = JStr c)"
proof -
  let ?T = "on_message e (Parsed message) (begin_turn st)"
  let ?rs = "readyState e"
  have chat: "is_chat message" using sent by (rule complete_only_chat)
  have fr: "frames_sent (log ?T) = delivered ?rs 0 (turn_frames e (field message ''model''))"
    using chat by (rule turn_frames_sent)
  obtain b where b: "includes_gpt (field message ''model'') = Inr b"
  proof (cases "includes_gpt (field message ''model'')")
    case (Inl err)
    then have "set (frames_sent (log ?T)) \<subseteq> {error_frame (error_message err)}"
      using set_delivered[of ?rs 0 "turn_frames e (field message ''model'')"]
      by (simp add: fr turn_frames_def)
    with sent show ?thesis by auto
  next
    case (Inr b)
    then show ?thesis by (rule that)
  qed
  let ?fs = "backend_fragments e b"
  let ?head = "streaming_start # map streaming_chunk ?fs"
  have app: "\<And>t. delivered ?rs 0 (?head @ t) = delivered ?rs 0 ?head @ delivered ?rs (Suc (length ?fs)) t"
    using delivered_append[of ?rs 0 ?head] by simp
  have nohead: "streaming_complete c u \<notin> set (delivered ?rs 0 ?head)"
  proof
    assume "streaming_complete c u \<in> set (delivered ?rs 0 ?head)"
    then have "streaming_complete c u \<in> set ?head"
      using set_delivered[of ?rs 0 ?head] by blast
    then show False by auto
  qed
  have fin: "backend_ending e b = Done"
  proof (cases "backend_ending e b")
    case Done
    then show ?thesis .
  next
    case (Throws err)
    have "frames_sent (log ?T) = delivered ?rs 0 ?head @ delivered ?rs (Suc (length ?fs)) [error_frame (backend_error b err)]"
      using app[of "[error_frame (backend_error b err)]"] by (simp add: fr turn_frames_def b Throws)
    with sent nohead show ?thesis by (auto split: if_splits)
  next
    case Hangs
    have "frames_sent (log ?T) = delivered ?rs 0 ?head"
      by (simp add: fr turn_frames_def b Hangs)
    with sent nohead show ?thesis by simp
  qed
  have shape: "frames_sent (log ?T) =
      delivered ?rs 0 ?head @ delivered ?rs (Suc (length ?fs)) [streaming_complete (concat ?fs) JUndefined]"
    using app[of "[streaming_complete (concat ?fs) JUndefined]"] by (simp add: fr turn_frames_def b fin)
  with sent nohead have last_open: "?rs (Suc (length ?fs)) = OPEN" and c: "c = concat ?fs"
    by (auto split: if_splits)
  have all_open: "\<And>i. i \<le> Suc (length ?fs) \<Longrightarrow> ?rs i = OPEN"
    using mono last_open unfolding never_reopens_def by blast
  have "delivered ?rs 0 ?head = ?head"
    by (rule delivered_all_open) (simp add: all_open)
  then have frames: "frames_sent (log ?T) = ?head @ [streaming_complete (concat ?fs) JUndefined]"
    using shape last_open by simp
  have payload: "concat (chunk_payloads (frames_sent (log ?T))) = c"
    using chunk_payloads_chunks[of ?fs "[streaming_complete (concat ?fs) JUndefined]"]
    by (simp add: frames c)
  have sto: "storage ?T = after_assistant e message st (concat ?fs)"
    using chat by (simp add: turn_storage b fin)
  have "assistant_message e message c \<in>
          set (getMessagesByConversation (storage ?T) (field message ''conversationId''))"
    unfolding sto c by (rule assistant_message_retrievable)
  moreover have "msg_role (assistant_message e message c) = ''assistant'' \<and>
                 msg_content (assistant_message e message c) = JStr c"
    by (simp add: assistant_message_def)
  ultimately show ?thesis using payload by blast
qed

text \<open>Witness for C1: the scenario of the specification.\<close>

theorem chunks_concat_equals_complete_witness:
  "never_reopens (readyState scenario_env) \<and>
   streaming_complete ''Hello!'' JUndefined \<in>
     set (frames_sent (log (on_message scenario_env (Parsed scenario_request) (begin_turn scenario_store)))) \<and>
   chunk_payloads (frames_sent (log (on_message scenario_env (Parsed scenario_request) (begin_turn scenario_store)))) =
     [''Hel'', ''lo!''] \<and>
   map msg_content
     (getMessagesByConversation
        (storage (on_message scenario_env (Parsed scenario_request) (begin_turn scenario_store)))
        (field scenario_request ''conversationId'')) =
     [JStr ''Hi'', JStr ''Hello!'']"
proof -
  have mono: "never_reopens (readyState scenario_env)"
    by (simp add: never_reopens_def scenario_env_def)
  have sent: "streaming_complete ''Hello!'' JUndefined \<in>
     set (frames_sent (log (on_message scenario_env (Parsed scenario_request) (begin_turn scenario_store))))"
    by (simp add: scenario_run)
  have run: "chunk_payloads (frames_sent (log (on_message scenario_env (Parsed scenario_request)
                 (begin_turn scenario_store)))) = [''Hel'', ''lo!''] \<and>
             map msg_content
               (getMessagesByConversation
                  (storage (on_message scenario_env (Parsed scenario_request) (begin_turn scenario_store)))
                  (field scenario_request ''conversationId'')) = [JStr ''Hi'', JStr ''Hello!'']"
    by (simp add: scenario_run getMessagesByConversation_def Map_values_def conversation_scenario_request)
  show ?thesis
    using chunks_concat_equals_complete [OF mono sent]
    by (simp (no_asm) add: mono sent run)
qed

text \<open>
  C2. In every chat turn the user message, with the submitted content, is stored before
  the backend is called: storing it is the first thing the run does, and the history any
  backend call receives contains it. It is among the messages of the conversation after
  the run whenever the backend did not complete (nothing is rolled back), and also after
  a completed run, the two identifiers drawn by \<^verbatim>\<open>randomUUID()\<close> being different.
\<close>

theorem user_message_persisted_before_backend:
  assumes "is_chat message"
  shows "msg_role (user_message e message) = ''user'' \<and>
         msg_content (user_message e message) = field message ''content'' \<and>
         (\<exists>rest. log (on_message e (Parsed message) (begin_turn st)) =
                    Persisted (user_message e message) # rest) \<and>
         (\<forall>svc h m. Invoked svc h m \<in> set (log (on_message e (Parsed message) (begin_turn st))) \<longrightarrow>
                    (''user'', field message ''content'') \<in> set h) \<and>
         (\<not> backend_completes e message \<or> asst_uuid e \<noteq> user_uuid e \<longrightarrow>
            user_message e message \<in>
              set (getMessagesByConversation (storage (on_message e (Parsed message) (begin_turn st)))
                     (field message ''conversationId'')))"
proof -
  let ?T = "on_message e (Parsed message) (begin_turn st)"
  have a: "msg_role (user_message e message) = ''user'' \<and>
           msg_content (user_message e message) = field message ''content''"
    by (simp add: user_message_def)
  have b: "\<exists>rest. log ?T = Persisted (user_message e message) # rest"
    using assms by (rule turn_log_hd)
  have c: "\<forall>svc h m. Invoked svc h m \<in> set (log ?T) \<longrightarrow> (''user'', field message ''content'') \<in> set h"
    using turn_log_Invoked[OF assms] history_has_user_message by blast
  have d: "user_message e message \<in>
              set (getMessagesByConversation (storage ?T) (field message ''conversationId''))"
    if "\<not> backend_completes e message \<or> asst_uuid e \<noteq> user_uuid e"
  proof (cases "backend_completes e message")
    case True
    then obtain b where "includes_gpt (field message ''model'') = Inr b" "backend_ending e b = Done"
      by (auto simp: backend_completes_def split: sum.splits)
    then have "storage ?T = after_assistant e message st (concat (backend_fragments e b))"
      using assms by (simp add: turn_storage)
    moreover have "asst_uuid e \<noteq> user_uuid e" using that True by simp
    ultimately show ?thesis by (simp add: user_message_survives)
  next
    case False
    then have "storage ?T = after_user e message st"
      using assms by (auto simp: turn_storage backend_completes_def split: sum.splits stream_end.splits)
    then show ?thesis by (simp add: user_message_retrievable)
  qed
  show ?thesis using a b c d by blast
qed

text \<open>Witness for C2: the backend fails after one fragment.\<close>

theorem user_message_persisted_before_backend_witness:
  "is_chat scenario_request \<and>
   \<not> backend_completes failing_env scenario_request \<and>
   log (on_message failing_env (Parsed scenario_request) (begin_turn scenario_store)) =
     [Persisted (user_message failing_env scenario_request),
      Sent streaming_start,
      Invoked OpenAI [(''user'', JStr ''Hi'')] (JStr ''gpt-5''),
      Sent (streaming_chunk ''Hel''),
      Sent (error_frame ''OpenAI API error: socket hang up'')] \<and>
   getMessagesByConversation
     (storage (on_message failing_env (Parsed scenario_request) (begin_turn scenario_store)))
     (field scenario_request ''conversationId'') =
     [user_message failing_env scenario_request]"
proof -
  have fails: "\<not> backend_completes failing_env scenario_request"
    by (simp add: backend_completes_def model_scenario_request)
       (simp add: backend_ending_def failing_env_def scenario_env_def)
  have run: "log (on_message failing_env (Parsed scenario_request) (begin_turn scenario_store)) =
               [Persisted (user_message failing_env scenario_request),
                Sent streaming_start,
                Invoked OpenAI [(''user'', JStr ''Hi'')] (JStr ''gpt-5''),
                Sent (streaming_chunk ''Hel''),
                Sent (error_frame ''OpenAI API error: socket hang up'')] \<and>
             getMessagesByConversation
               (storage (on_message failing_env (Parsed scenario_request) (begin_turn scenario_store)))
               (field scenario_request ''conversationId'') =
               [user_message failing_env scenario_request]"
    by (simp add: failing_run getMessagesByConversation_def Map_values_def user_message_failing
        conversation_scenario_request)
  show ?thesis
    using user_message_persisted_before_backend [OF is_chat_scenario_request, of failing_env scenario_store]
    by (simp (no_asm) add: is_chat_scenario_request fails run)
qed

text \<open>
  C3. In a chat turn that fails before the backend completes (\<^verbatim>\<open>model.includes\<close> throws
  or the backend rejects), no assistant message is created: the store is the one left by
  storing the user message, which is the only message the run stores. No
  \<^verbatim>\<open>streaming_complete\<close> frame is sent; the \<^verbatim>\<open>catch\<close> block sends the \<^verbatim>\<open>error\<close> frame
  with the failure's message in its place, as the last frame, the connection being open
  at that reading of \<^verbatim>\<open>ws.readyState\<close> (the last one of the run).
\<close>

theorem failed_turn_no_assistant_message:
  assumes "is_chat message" and "turn_failure e message = Some reason"
  shows "storage (on_message e (Parsed message) (begin_turn st)) = after_user e message st \<and>
         messages (storage (on_message e (Parsed message) (begin_turn st))) =
           Map_set (user_uuid e) (user_message e message) (messages st) \<and>
         (\<forall>x. Persisted x \<in> set (log (on_message e (Parsed message) (begin_turn st))) \<longrightarrow>
               x = user_message e message) \<and>
         (\<forall>c u. streaming_complete c u \<notin> set (frames_sent (log (on_message e (Parsed message) (begin_turn st))))) \<and>
         (readyState e (checks (on_message e (Parsed message) (begin_turn st)) - 1) = OPEN \<longrightarrow>
            frames_sent (log (on_message e (Parsed message) (begin_turn st))) \<noteq> [] \<and>
            last (frames_sent (log (on_message e (Parsed message) (begin_turn st)))) = error_frame reason)"
proof -
  let ?T = "on_message e (Parsed message) (begin_turn st)"
  let ?rs = "readyState e"
  have nc: "\<not> backend_completes e message"
    using assms(2) by (auto simp: turn_failure_def backend_completes_def split: sum.splits stream_end.splits)
  have sto: "storage ?T = after_user e message st"
    using assms(1) nc by (auto simp: turn_storage backend_completes_def split: sum.splits stream_end.splits)
  have msgs: "messages (storage ?T) = Map_set (user_uuid e) (user_message e message) (messages st)"
    by (simp add: sto messages_after_user)
  have pers: "\<forall>x. Persisted x \<in> set (log ?T) \<longrightarrow> x = user_message e message"
    using turn_log_Persisted_failed[OF assms(1) nc] by blast
  obtain pre where tf: "turn_frames e (field message ''model'') = pre @ [error_frame reason]"
    and pre: "\<forall>f \<in> set pre. \<not> is_terminal f" and ch: "checks ?T = Suc (length pre)"
    using failed_turn_frames[OF assms] by blast
  have fr: "frames_sent (log ?T) = delivered ?rs 0 pre @ delivered ?rs (length pre) [error_frame reason]"
    using turn_frames_sent[OF assms(1), of e st] delivered_append[of ?rs 0 pre "[error_frame reason]"]
    by (simp add: tf)
  have nocomp: "\<forall>c u. streaming_complete c u \<notin> set (frames_sent (log ?T))"
  proof (intro allI notI)
    fix c u assume "streaming_complete c u \<in> set (frames_sent (log ?T))"
    then have "streaming_complete c u \<in> set (delivered ?rs 0 (pre @ [error_frame reason]))"
      using turn_frames_sent[OF assms(1), of e st] by (simp add: tf)
    then have "streaming_complete c u \<in> set (pre @ [error_frame reason])"
      using set_delivered[of ?rs 0 "pre @ [error_frame reason]"] by blast
    then have "streaming_complete c u \<in> set pre" by simp
    with pre show False by force
  qed
  have lastf: "frames_sent (log ?T) \<noteq> [] \<and> last (frames_sent (log ?T)) = error_frame reason"
    if "?rs (checks ?T - 1) = OPEN"
    using that by (simp add: fr ch)
  show ?thesis using sto msgs pers nocomp lastf by blast
qed

text \<open>Witness for C3: the backend rejects with "rate limited" before any fragment.\<close>

theorem failed_turn_no_assistant_message_witness:
  "is_chat scenario_request \<and>
   turn_failure rate_limited_env scenario_request = Some ''OpenAI API error: rate limited'' \<and>
   checks (on_message rate_limited_env (Parsed scenario_request) (begin_turn scenario_store)) = 2 \<and>
   readyState rate_limited_env 1 = OPEN \<and>
   frames_sent (log (on_message rate_limited_env (Parsed scenario_request) (begin_turn scenario_store))) =
     [streaming_start, error_frame ''OpenAI API error: rate limited''] \<and>
   map msg_role
     (getMessagesByConversation
        (storage (on_message rate_limited_env (Parsed scenario_request) (begin_turn scenario_store)))
        (field scenario_request ''conversationId'')) = [''user'']"
proof -
  have fails: "turn_failure rate_limited_env scenario_request = Some ''OpenAI API error: rate limited''"
    by (simp add: turn_failure_def model_scenario_request)
       (simp add: backend_ending_def backend_error_def error_message_def rate_limited_env_def
          scenario_env_def)
  have run: "checks (on_message rate_limited_env (Parsed scenario_request) (begin_turn scenario_store)) = 2 \<and>
             readyState rate_limited_env 1 = OPEN \<and>
             frames_sent (log (on_message rate_limited_env (Parsed scenario_request)
               (begin_turn scenario_store))) =
               [streaming_start, error_frame ''OpenAI API error: rate limited''] \<and>
             map msg_role
               (getMessagesByConversation
                  (storage (on_message rate_limited_env (Parsed scenario_request) (begin_turn scenario_store)))
                  (field scenario_request ''conversationId'')) = [''user'']"
    by (simp add: rate_limited_run getMessagesByConversation_def Map_values_def
        conversation_scenario_request always_open_examples)
  show ?thesis
    using failed_turn_no_assistant_message [OF is_chat_scenario_request fails, of scenario_store]
    by (simp (no_asm) add: is_chat_scenario_request fails run always_open_examples)
qed

text \<open>
  C4, as amended. In every chat turn the frames sent are those frames of the turn's
  sequence (a \<^verbatim>\<open>streaming_start\<close>, the chunks in the order the provider emitted them, one
  terminal frame; the \<^verbatim>\<open>error\<close> frame alone when the turn fails before streaming
  begins; no terminal frame when the backend never settles) that find the connection
  open. So a terminal frame can only be the last frame sent (none follows it, and
  \<^verbatim>\<open>streaming_complete\<close> and \<^verbatim>\<open>error\<close> are never both sent), and \<^verbatim>\<open>streaming_start\<close> can
  only be the first. When the connection stays open, \<^verbatim>\<open>model.includes\<close> returns and the
  backend settles, the frames are exactly one \<^verbatim>\<open>streaming_start\<close>, the chunks in
  provider order and one terminal frame.
\<close>

theorem frame_order:
  assumes "is_chat message"
  shows "frames_sent (log (on_message e (Parsed message) (begin_turn st))) =
           delivered (readyState e) 0 (turn_frames e (field message ''model'')) \<and>
         (\<forall>f \<in> set (butlast (frames_sent (log (on_message e (Parsed message) (begin_turn st))))).
            \<not> is_terminal f) \<and>
         (\<forall>f \<in> set (tl (frames_sent (log (on_message e (Parsed message) (begin_turn st))))).
            f \<noteq> streaming_start) \<and>
         (always_open (readyState e) \<and> includes_gpt (field message ''model'') = Inr b \<and>
          backend_ending e b \<noteq> Hangs \<longrightarrow>
            (\<exists>t. is_terminal t \<and>
                 frames_sent (log (on_message e (Parsed message) (begin_turn st))) =
                   streaming_start # map streaming_chunk (backend_fragments e b) @ [t]))"
proof -
  let ?T = "on_message e (Parsed message) (begin_turn st)"
  let ?rs = "readyState e"
  let ?tf = "turn_frames e (field message ''model'')"
  have fr: "frames_sent (log ?T) = delivered ?rs 0 ?tf"
    using assms by (rule turn_frames_sent)
  obtain pre t where "?tf = pre @ t" "\<forall>f \<in> set pre. \<not> is_terminal f" "length t \<le> 1"
    using turn_frames_split by blast
  then have only_last: "\<forall>f \<in> set (butlast (frames_sent (log ?T))). \<not> is_terminal f"
    using butlast_delivered[of pre is_terminal t ?rs 0] by (simp add: fr)
  have start: "\<forall>f \<in> set (tl (frames_sent (log ?T))). f \<noteq> streaming_start"
    using tl_delivered_no_start[of ?rs e "field message ''model''"] by (auto simp: fr)
  have full: "\<exists>t. is_terminal t \<and>
                 frames_sent (log ?T) = streaming_start # map streaming_chunk (backend_fragments e b) @ [t]"
    if op: "always_open ?rs" and inc: "includes_gpt (field message ''model'') = Inr b"
      and settles: "backend_ending e b \<noteq> Hangs"
  proof -
    have all: "frames_sent (log ?T) = ?tf"
      unfolding fr by (rule delivered_all_open) (use op in \<open>simp add: always_open_def\<close>)
    show ?thesis
    proof (cases "backend_ending e b")
      case Done
      then show ?thesis by (simp add: all turn_frames_def inc)
    next
      case (Throws err)
      then show ?thesis by (simp add: all turn_frames_def inc)
    next
      case Hangs
      with settles show ?thesis by simp
    qed
  qed
  show ?thesis using fr only_last start full by blast
qed

text \<open>Witness for C4: the backend fails after one fragment, on an open connection.\<close>

theorem frame_order_witness:
  "is_chat scenario_request \<and>
   always_open (readyState failing_env) \<and>
   includes_gpt (field scenario_request ''model'') = Inr True \<and>
   backend_ending failing_env True \<noteq> Hangs \<and>
   frames_sent (log (on_message failing_env (Parsed scenario_request) (begin_turn scenario_store))) =
     [streaming_start, streaming_chunk ''Hel'', error_frame ''OpenAI API error: socket hang up'']"
proof -
  have op: "always_open (readyState failing_env)"
    by (simp add: always_open_def always_open_examples)
  have settles: "backend_ending failing_env True \<noteq> Hangs"
    by (simp add: backend_ending_def failing_env_def scenario_env_def)
  have run: "frames_sent (log (on_message failing_env (Parsed scenario_request) (begin_turn scenario_store))) =
               [streaming_start, streaming_chunk ''Hel'', error_frame ''OpenAI API error: socket hang up'']"
    by (simp add: failing_run)
  show ?thesis
    using frame_order [OF is_chat_scenario_request, of failing_env scenario_store True]
    by (simp (no_asm) add: is_chat_scenario_request op settles model_scenario_request run)
qed

text \<open>
  Counterexample to C4 as stated: a chat request without \<^verbatim>\<open>model\<close>, on an open
  connection. The turn sends the \<^verbatim>\<open>error\<close> frame and nothing else, so no
  \<^verbatim>\<open>streaming_start\<close> precedes the terminal frame.
\<close>

theorem frame_order_counterexample:
  "is_chat request_without_model \<and>
   readyState scenario_env 0 = OPEN \<and>
   frames_sent (log (on_message scenario_env (Parsed request_without_model) (begin_turn scenario_store))) =
     [error_frame (''Cannot read properties of undefined (reading '' @ [CHR 0x27] @
                   ''includes'' @ [CHR 0x27] @ '')'')] \<and>
   streaming_start \<notin>
     set (frames_sent (log (on_message scenario_env (Parsed request_without_model) (begin_turn scenario_store))))"
  by (simp add: no_model_run always_open_examples is_chat_request_without_model)




text \<open>
  C6, on the code. In the scenario (conversation \<^verbatim>\<open>C1\<close> empty, content \<^verbatim>\<open>"Hi"\<close>, model
  \<^verbatim>\<open>"gpt-5"\<close>, fragments \<^verbatim>\<open>"Hel"\<close> and \<^verbatim>\<open>"lo!"\<close>, then a usage of 5) the frames and the
  stored messages are those the specification expects but for the token usage: the
  streaming function of the backend returns the content only, so the
  \<^verbatim>\<open>streaming_complete\<close> frame has no \<^verbatim>\<open>tokenUsage\<close> and the assistant message is stored
  with \<^verbatim>\<open>tokenUsage\<close> \<^verbatim>\<open>null\<close>, not 5.
\<close>

theorem scenario_token_usage_dropped:
  "map chunk_usage (chunks (openai_reply scenario_env)) = [None, None, Some 5] \<and>
   frames_sent (log (on_message scenario_env (Parsed scenario_request) (begin_turn scenario_store))) =
     [streaming_start, streaming_chunk ''Hel'', streaming_chunk ''lo!'',
      streaming_complete ''Hello!'' JUndefined] \<and>
   getMessagesByConversation
     (storage (on_message scenario_env (Parsed scenario_request) (begin_turn scenario_store)))
     (JStr ''C1'') =
     [\<lparr>msg_id = ''u1'', msg_conversationId = JStr ''C1'', msg_role = ''user'',
       msg_content = JStr ''Hi'', msg_model = JNull, msg_tokenUsage = JNull, msg_createdAt = 1000\<rparr>,
      \<lparr>msg_id = ''a1'', msg_conversationId = JStr ''C1'', msg_role = ''assistant'',
       msg_content = JStr ''Hello!'', msg_model = JStr ''gpt-5'', msg_tokenUsage = JNull,
       msg_createdAt = 2000\<rparr>]"
  by (simp add: relay_defs example_defs)

text \<open>
  An inbound frame that fails to parse as JSON: the relay does what its guarded send of
  an \<^verbatim>\<open>error\<close> frame with the parse error's message does and nothing else, so the
  store is unchanged and the frame is sent when the connection is open.
\<close>

lemma unparseable_frame_no_mutation:
  "on_message e (Unparseable m) s = send_if_open e (error_frame m) s \<and>
   storage (on_message e (Unparseable m) s) = storage s \<and>
   frames_sent (log (on_message e (Unparseable m) (begin_turn st))) =
     (if readyState e 0 = OPEN then [error_frame m] else [])"
  by (simp add: on_message_def send_if_open_def error_message_def begin_turn_def)

text \<open>
  C7, on the code. The frame \<^verbatim>\<open>{"type":"chat"}\<close> parses and lacks every other field of
  a chat request. The relay answers it with an \<^verbatim>\<open>error\<close> frame, as the claim says, but
  only after \<open>createMessage\<close> has stored a user message whose \<^verbatim>\<open>conversationId\<close> and
  \<^verbatim>\<open>content\<close> are \<^verbatim>\<open>undefined\<close>: the store, empty before, holds that message
  afterwards, where the claim has no state mutation.
\<close>

theorem malformed_chat_frame_stores_message:
  "is_chat bare_chat_request \<and>
   messages scenario_store = [] \<and>
   messages (storage (on_message scenario_env (Parsed bare_chat_request) (begin_turn scenario_store))) =
     [(''u1'', \<lparr>msg_id = ''u1'', msg_conversationId = JUndefined, msg_role = ''user'',
                msg_content = JUndefined, msg_model = JNull, msg_tokenUsage = JNull,
                msg_createdAt = 1000\<rparr>)] \<and>
   frames_sent (log (on_message scenario_env (Parsed bare_chat_request) (begin_turn scenario_store))) =
     [error_frame (''Cannot read properties of undefined (reading '' @ [CHR 0x27] @
                   ''includes'' @ [CHR 0x27] @ '')'')]"
  by (simp add: bare_run is_chat_bare_chat_request) (simp add: scenario_store_def)

text \<open>
  C8. In a chat turn whose backend completes, whatever the connection does: the frames
  sent are those of the turn's sequence that find the connection open, the others are
  skipped without further effect; the callback has accumulated every fragment all the
  same; and the assistant message with the whole text is stored and is among the
  messages \<open>getMessagesByConversation\<close> returns for the conversation.
\<close>

theorem persistence_survives_closed_transport:
  assumes "is_chat message"
    and "includes_gpt (field message ''model'') = Inr b"
    and "backend_ending e b = Done"
  shows "frames_sent (log (on_message e (Parsed message) (begin_turn st))) =
           delivered (readyState e) 0
             (streaming_start # map streaming_chunk (backend_fragments e b) @
              [streaming_complete (concat (backend_fragments e b)) JUndefined]) \<and>
         aiResponse (on_message e (Parsed message) (begin_turn st)) = concat (backend_fragments e b) \<and>
         storage (on_message e (Parsed message) (begin_turn st)) =
           after_assistant e message st (concat (backend_fragments e b)) \<and>
         assistant_message e message (concat (backend_fragments e b)) \<in>
           set (getMessagesByConversation (storage (on_message e (Parsed message) (begin_turn st)))
                  (field message ''conversationId''))"
proof -
  let ?T = "on_message e (Parsed message) (begin_turn st)"
  have fr: "frames_sent (log ?T) = delivered (readyState e) 0
             (streaming_start # map streaming_chunk (backend_fragments e b) @
              [streaming_complete (concat (backend_fragments e b)) JUndefined])"
    using turn_frames_sent[OF assms(1), of e st] by (simp add: turn_frames_def assms(2,3))
  have ai: "aiResponse ?T = concat (backend_fragments e b)"
    using assms by (simp add: on_message_streamed send_if_open_def streamed_def)
  have sto: "storage ?T = after_assistant e message st (concat (backend_fragments e b))"
    using assms by (simp add: turn_storage)
  show ?thesis
    using fr ai sto assistant_message_retrievable[of e message "concat (backend_fragments e b)" st]
    by simp
qed

text \<open>Witness for C8: the connection closes after the first chunk.\<close>

theorem persistence_survives_closed_transport_witness:
  "is_chat scenario_request \<and>
   includes_gpt (field scenario_request ''model'') = Inr True \<and>
   backend_ending closing_env True = Done \<and>
   readyState closing_env 2 = CLOSED \<and>
   frames_sent (log (on_message closing_env (Parsed scenario_request) (begin_turn scenario_store))) =
     [streaming_start, streaming_chunk ''Hel''] \<and>
   aiResponse (on_message closing_env (Parsed scenario_request) (begin_turn scenario_store)) = ''Hello!'' \<and>
   map msg_content
     (getMessagesByConversation
        (storage (on_message closing_env (Parsed scenario_request) (begin_turn scenario_store)))
        (field scenario_request ''conversationId'')) = [JStr ''Hi'', JStr ''Hello!'']"
proof -
  have fin: "backend_ending closing_env True = Done"
    by (simp add: backend_ending_def closing_env_def scenario_env_def)
  have closed: "readyState closing_env 2 = CLOSED"
    by (simp add: closing_env_def scenario_env_def)
  have run: "frames_sent (log (on_message closing_env (Parsed scenario_request) (begin_turn scenario_store))) =
               [streaming_start, streaming_chunk ''Hel''] \<and>
             map msg_content
               (getMessagesByConversation
                  (storage (on_message closing_env (Parsed scenario_request) (begin_turn scenario_store)))
                  (field scenario_request ''conversationId'')) = [JStr ''Hi'', JStr ''Hello!'']"
    by (simp add: closing_run getMessagesByConversation_def Map_values_def conversation_scenario_request)
  show ?thesis
    using persistence_survives_closed_transport [OF is_chat_scenario_request model_scenario_request fin,
        of scenario_store]
    by (simp (no_asm) add: is_chat_scenario_request model_scenario_request fin closed run closing_run)
qed

text \<open>
  C9. Deleting a conversation removes every message whose conversation id is the deleted
  id and every uploaded file owned by it: afterwards \<open>getMessagesByConversation\<close> on the
  deleted id returns the empty list, and no message and no file of that conversation is
  left in the maps. The store is one the class can be in: every value sits under its own
  id.
\<close>

theorem deleteConversation_cascade:
  assumes "store_inv st"
  shows "getMessagesByConversation (snd (deleteConversation st cid)) (JStr cid) = [] \<and>
         (\<forall>p \<in> set (messages (snd (deleteConversation st cid))). msg_conversationId (snd p) \<noteq> JStr cid) \<and>
         (\<forall>p \<in> set (uploadedFiles (snd (deleteConversation st cid))). file_conversationId (snd p) \<noteq> Some cid)"
proof -
  let ?st' = "snd (deleteConversation st cid)"
  have keys: "\<And>p. p \<in> set (messages st) \<Longrightarrow> msg_id (snd p) = fst p"
    and fkeys: "\<And>p. p \<in> set (uploadedFiles st) \<Longrightarrow> file_id (snd p) = fst p"
    using assms by (auto simp: store_inv_def list_all_iff)
  have m: "\<forall>p \<in> set (messages ?st'). msg_conversationId (snd p) \<noteq> JStr cid"
  proof
    fix p assume p: "p \<in> set (messages ?st')"
    then have pin: "p \<in> set (messages st)"
      and notin: "fst p \<notin> msg_id ` set (getMessagesByConversation st (JStr cid))"
      by (auto simp: deleteConversation_messages)
    show "msg_conversationId (snd p) \<noteq> JStr cid"
    proof
      assume "msg_conversationId (snd p) = JStr cid"
      with pin have "snd p \<in> set (getMessagesByConversation st (JStr cid))"
        by (auto simp: set_getMessagesByConversation)
      then have "msg_id (snd p) \<in> msg_id ` set (getMessagesByConversation st (JStr cid))"
        by (rule imageI)
      with keys[OF pin] notin show False by simp
    qed
  qed
  have f: "\<forall>p \<in> set (uploadedFiles ?st'). file_conversationId (snd p) \<noteq> Some cid"
  proof
    fix p assume p: "p \<in> set (uploadedFiles ?st')"
    then have pin: "p \<in> set (uploadedFiles st)"
      and notin: "fst p \<notin> file_id ` set (getUploadedFiles st (Some cid))"
      by (auto simp: deleteConversation_files)
    show "file_conversationId (snd p) \<noteq> Some cid"
    proof
      assume "file_conversationId (snd p) = Some cid"
      with pin have "snd p \<in> set (getUploadedFiles st (Some cid))"
        using set_getUploadedFiles_owned[of st cid] by auto
      then have "file_id (snd p) \<in> file_id ` set (getUploadedFiles st (Some cid))"
        by (rule imageI)
      with fkeys[OF pin] notin show False by simp
    qed
  qed
  have "set (getMessagesByConversation ?st' (JStr cid)) = {}"
    using m by (auto simp: set_getMessagesByConversation)
  then show ?thesis using m f by simp
qed

text \<open>Witness for C9: a store with two conversations.\<close>

theorem deleteConversation_cascade_witness:
  "store_inv example_store \<and>
   map msg_id (getMessagesByConversation example_store (JStr ''c1'')) = [''m1'', ''m3''] \<and>
   getMessagesByConversation (snd (deleteConversation example_store ''c1'')) (JStr ''c1'') = [] \<and>
   map fst (messages (snd (deleteConversation example_store ''c1''))) = [''m2''] \<and>
   map fst (uploadedFiles (snd (deleteConversation example_store ''c1''))) = [''f2'']"
proof -
  have inv: "store_inv example_store"
    by (simp add: store_inv_def example_store_def)
  show ?thesis
    using inv deleteConversation_cascade [OF inv, of "''c1''"]
    by (simp add: example_store_def deleteConversation_def getMessagesByConversation_def
        getUploadedFiles_def Map_values_def Map_delete_def Let_def)
qed

text \<open>
  C10, as amended. For every inbound frame that parses to a value other than \<^verbatim>\<open>null\<close>
  (so that reading its \<^verbatim>\<open>type\<close> does not throw) and whose \<^verbatim>\<open>type\<close> is not \<^verbatim>\<open>'chat'\<close>,
  the handler does nothing at all: no frame is sent and the store is unchanged.
\<close>

theorem non_chat_frame_ignored:
  assumes "get_prop message ''type'' = Inr t" and "t \<noteq> JStr ''chat''"
  shows "on_message e (Parsed message) s = s"
  using assms by (simp add: on_message_def)

text \<open>Witness for C10: a frame of type \<^verbatim>\<open>ping\<close>.\<close>

theorem non_chat_frame_ignored_witness:
  "get_prop ping_request ''type'' = Inr (JStr ''ping'') \<and>
   JStr ''ping'' \<noteq> JStr ''chat'' \<and>
   on_message scenario_env (Parsed ping_request) (begin_turn scenario_store) = begin_turn scenario_store"
proof -
  have t: "get_prop ping_request ''type'' = Inr (JStr ''ping'')"
    by (simp add: ping_request_def)
  have ne: "JStr ''ping'' \<noteq> JStr ''chat''"
    by simp
  show ?thesis
    using non_chat_frame_ignored [OF t ne, of scenario_env "begin_turn scenario_store"]
    by (simp add: t)
qed

text \<open>
  Counterexample to C10 as stated: the frame \<^verbatim>\<open>null\<close> parses as JSON and its type is not
  \<^verbatim>\<open>'chat'\<close>, yet reading \<^verbatim>\<open>message.type\<close> throws and the \<^verbatim>\<open>catch\<close> block answers with
  an \<^verbatim>\<open>error\<close> frame.
\<close>

theorem null_frame_counterexample:
  "\<not> is_chat JNull \<and>
   readyState scenario_env 0 = OPEN \<and>
   frames_sent (log (on_message scenario_env (Parsed JNull) (begin_turn scenario_store))) =
     [error_frame (''Cannot read properties of null (reading '' @ [CHR 0x27] @ ''type'' @
                   [CHR 0x27] @ '')'')]"
  by (simp add: relay_defs is_chat_def scenario_env_def scenario_store_def)

end
